theory Spec2Isabelle
  imports Complex_Main
begin

section \<open>JavaScript values used by the retry engine\<close>

subsection \<open>Numbers\<close>

text \<open>
  A JavaScript number is a finite value, one of the two infinities, or NaN.  Finite values are
  kept as exact rationals: the arithmetic below is the exact one, so the rounding and the
  overflow of IEEE doubles are not part of this development.  The signed zero is not
  distinguished.
\<close>

datatype jsnum = Fin rat | PInf | NInf | NaN

fun isFinite :: "jsnum \<Rightarrow> bool" where
  "isFinite (Fin q) = True"
| "isFinite PInf = False"
| "isFinite NInf = False"
| "isFinite NaN = False"

text \<open>The relational operators: every comparison with NaN is false.\<close>

fun js_lt :: "jsnum \<Rightarrow> jsnum \<Rightarrow> bool" where
  "js_lt NaN y = False"
| "js_lt x NaN = False"
| "js_lt (Fin a) (Fin b) = (a < b)"
| "js_lt (Fin a) PInf = True"
| "js_lt (Fin a) NInf = False"
| "js_lt PInf y = False"
| "js_lt NInf NInf = False"
| "js_lt NInf y = True"

definition js_gt :: "jsnum \<Rightarrow> jsnum \<Rightarrow> bool" where
  "js_gt x y = js_lt y x"

fun js_le :: "jsnum \<Rightarrow> jsnum \<Rightarrow> bool" where
  "js_le NaN y = False"
| "js_le x NaN = False"
| "js_le x y = (\<not> js_lt y x)"

definition js_ge :: "jsnum \<Rightarrow> jsnum \<Rightarrow> bool" where
  "js_ge x y = js_le y x"

fun js_neg :: "jsnum \<Rightarrow> jsnum" where
  "js_neg (Fin a) = Fin (- a)"
| "js_neg PInf = NInf"
| "js_neg NInf = PInf"
| "js_neg NaN = NaN"

fun js_add :: "jsnum \<Rightarrow> jsnum \<Rightarrow> jsnum" where
  "js_add NaN y = NaN"
| "js_add x NaN = NaN"
| "js_add (Fin a) (Fin b) = Fin (a + b)"
| "js_add (Fin a) y = y"
| "js_add PInf NInf = NaN"
| "js_add NInf PInf = NaN"
| "js_add x y = x"

definition js_sub :: "jsnum \<Rightarrow> jsnum \<Rightarrow> jsnum" where
  "js_sub x y = js_add x (js_neg y)"

definition js_sign :: "jsnum \<Rightarrow> int" where
  "js_sign x = (case x of Fin a \<Rightarrow> (if a < 0 then - 1 else if a = 0 then 0 else 1)
                | PInf \<Rightarrow> 1 | NInf \<Rightarrow> - 1 | NaN \<Rightarrow> 0)"

fun js_mul :: "jsnum \<Rightarrow> jsnum \<Rightarrow> jsnum" where
  "js_mul NaN y = NaN"
| "js_mul x NaN = NaN"
| "js_mul (Fin a) (Fin b) = Fin (a * b)"
| "js_mul x y =
     (let s = js_sign x * js_sign y
      in if s = 0 then NaN else if 0 < s then PInf else NInf)"

text \<open>
  The exponentiation operator with an integral exponent, which is all the engine uses
  (\<^verbatim>\<open>factor ** (attempt - 1)\<close>).  Any base to the power 0 is 1, NaN included.
\<close>

definition js_pow :: "jsnum \<Rightarrow> int \<Rightarrow> jsnum" where
  "js_pow x e =
     (if e = 0 then Fin 1
      else case x of
          NaN \<Rightarrow> NaN
        | Fin b \<Rightarrow>
            (if 0 < e then Fin (b ^ nat e)
             else if b = 0 then PInf
             else Fin (1 / b ^ nat (- e)))
        | PInf \<Rightarrow> (if 0 < e then PInf else Fin 0)
        | NInf \<Rightarrow> (if 0 < e then (if odd e then NInf else PInf) else Fin 0))"

text \<open>\<^verbatim>\<open>Math.min\<close> on two arguments: NaN if either is NaN.\<close>

fun Math_min :: "jsnum \<Rightarrow> jsnum \<Rightarrow> jsnum" where
  "Math_min NaN y = NaN"
| "Math_min x NaN = NaN"
| "Math_min x y = (if js_lt y x then y else x)"

fun Math_floor :: "jsnum \<Rightarrow> jsnum" where
  "Math_floor (Fin a) = Fin (of_int \<lfloor>a\<rfloor>)"
| "Math_floor x = x"

text \<open>\<^verbatim>\<open>Math.trunc\<close> on a finite value: rounding towards zero.\<close>

definition trunc :: "rat \<Rightarrow> int" where
  "trunc a = (if 0 \<le> a then \<lfloor>a\<rfloor> else \<lceil>a\<rceil>)"

definition num :: "int \<Rightarrow> jsnum" where
  "num i = Fin (of_int i)"

subsection \<open>Strings\<close>

text \<open>
  A string is a list of code units; only the code units 0 to 255 are represented.  The white
  space of \<^verbatim>\<open>String.prototype.trim\<close> and of the string-to-number conversion in this range is
  TAB, LF, VT, FF, CR, SP and NBSP.
\<close>

definition isWhiteSpace :: "char \<Rightarrow> bool" where
  "isWhiteSpace c =
     (let n = (of_char c :: nat)
      in n = 9 \<or> n = 10 \<or> n = 11 \<or> n = 12 \<or> n = 13 \<or> n = 32 \<or> n = 160)"

definition trim :: "string \<Rightarrow> string" where
  "trim s = rev (dropWhile isWhiteSpace (rev (dropWhile isWhiteSpace s)))"

definition lowerChar :: "char \<Rightarrow> char" where
  "lowerChar c =
     (let n = (of_char c :: nat)
      in if (65 \<le> n \<and> n \<le> 90) \<or> (192 \<le> n \<and> n \<le> 222 \<and> n \<noteq> 215)
         then char_of (n + 32) else c)"

definition toLowerCase :: "string \<Rightarrow> string" where
  "toLowerCase s = map lowerChar s"

fun startsWith :: "string \<Rightarrow> string \<Rightarrow> bool" where
  "startsWith s [] = True"
| "startsWith [] (c # w) = False"
| "startsWith (d # s) (c # w) = (d = c \<and> startsWith s w)"

fun str_includes :: "string \<Rightarrow> string \<Rightarrow> bool" where
  "str_includes [] w = (w = [])"
| "str_includes (c # s) w = (startsWith (c # s) w \<or> str_includes s w)"

subsection \<open>String to number\<close>

text \<open>
  \<^verbatim>\<open>Number(s)\<close> on a string, after the StringNumericLiteral grammar of ECMAScript: surrounding
  white space is dropped; the empty string is 0; then come the unsigned literals in base 16, 8
  and 2, and the signed decimal literals with an optional fraction and exponent, and
  \<^verbatim>\<open>Infinity\<close>; anything else is NaN.
\<close>

definition digitVal :: "nat \<Rightarrow> char \<Rightarrow> nat option" where
  "digitVal base c =
     (let n = (of_char c :: nat);
          v = (if 48 \<le> n \<and> n \<le> 57 then n - 48
               else if 97 \<le> n \<and> n \<le> 102 then n - 87
               else if 65 \<le> n \<and> n \<le> 70 then n - 55
               else base)
      in if v < base then Some v else None)"

fun digitsVal :: "nat \<Rightarrow> nat \<Rightarrow> string \<Rightarrow> nat option" where
  "digitsVal base acc [] = Some acc"
| "digitsVal base acc (c # cs) =
     (case digitVal base c of
        None \<Rightarrow> None
      | Some v \<Rightarrow> digitsVal base (acc * base + v) cs)"

text \<open>A non-empty run of digits in the given base, read to the end of the string.\<close>

definition parseDigits :: "nat \<Rightarrow> string \<Rightarrow> nat option" where
  "parseDigits base s = (if s = [] then None else digitsVal base 0 s)"

definition isDecimalDigit :: "char \<Rightarrow> bool" where
  "isDecimalDigit c = (digitVal 10 c \<noteq> None)"

definition parseExponent :: "string \<Rightarrow> int option" where
  "parseExponent s =
     (case s of
        [] \<Rightarrow> Some 0
      | c # r \<Rightarrow>
          (if c = CHR ''e'' \<or> c = CHR ''E'' then
             (case r of
                [] \<Rightarrow> None
              | d # r' \<Rightarrow>
                  (if d = CHR ''-'' then map_option (\<lambda>n. - int n) (parseDigits 10 r')
                   else if d = CHR ''+'' then map_option int (parseDigits 10 r')
                   else map_option int (parseDigits 10 r)))
           else None))"

definition scale10 :: "rat \<Rightarrow> int \<Rightarrow> rat" where
  "scale10 m e = (if 0 \<le> e then m * 10 ^ nat e else m / 10 ^ nat (- e))"

definition parseUnsignedDecimal :: "string \<Rightarrow> jsnum option" where
  "parseUnsignedDecimal s =
     (if s = ''Infinity'' then Some PInf
      else
        let ip = takeWhile isDecimalDigit s;
            r1 = dropWhile isDecimalDigit s;
            dot = (r1 \<noteq> [] \<and> hd r1 = CHR ''.'');
            fp = (if dot then takeWhile isDecimalDigit (tl r1) else []);
            r2 = (if dot then dropWhile isDecimalDigit (tl r1) else r1)
        in if ip = [] \<and> fp = [] then None
           else case (digitsVal 10 0 ip, digitsVal 10 0 fp, parseExponent r2) of
                  (Some i, Some f, Some e) \<Rightarrow>
                    Some (Fin (scale10 (of_nat i + of_nat f / 10 ^ length fp) e))
                | _ \<Rightarrow> None)"

definition parseNumeric :: "string \<Rightarrow> jsnum option" where
  "parseNumeric s =
     (case s of
        c # d # r \<Rightarrow>
          (if c = CHR ''0'' \<and> (d = CHR ''x'' \<or> d = CHR ''X'')
             then map_option (\<lambda>n. Fin (of_nat n)) (parseDigits 16 r)
           else if c = CHR ''0'' \<and> (d = CHR ''o'' \<or> d = CHR ''O'')
             then map_option (\<lambda>n. Fin (of_nat n)) (parseDigits 8 r)
           else if c = CHR ''0'' \<and> (d = CHR ''b'' \<or> d = CHR ''B'')
             then map_option (\<lambda>n. Fin (of_nat n)) (parseDigits 2 r)
           else if c = CHR ''-'' then map_option js_neg (parseUnsignedDecimal (d # r))
           else if c = CHR ''+'' then parseUnsignedDecimal (d # r)
           else parseUnsignedDecimal s)
      | _ \<Rightarrow> parseUnsignedDecimal s)"

definition Number_of_string :: "string \<Rightarrow> jsnum" where
  "Number_of_string s =
     (let t = trim s
      in if t = [] then Fin 0
         else case parseNumeric t of Some v \<Rightarrow> v | None \<Rightarrow> NaN)"


subsection \<open>Values\<close>

text \<open>
  The engine inspects whatever the task throws, so a thrown value is an arbitrary JavaScript
  value.  An object is the list of its properties in enumeration order, with a flag telling
  whether it is an instance of \<^verbatim>\<open>TypeError\<close>; property reads and \<^verbatim>\<open>Object.entries\<close> see the same
  list (no accessors, no distinction between own and inherited properties).  A function value
  is a pure function of one string argument, which is how the engine calls the \<^verbatim>\<open>get\<close> method
  of a headers object.  Properties of primitives, arrays and functions other than the indices
  of an array are not represented.
\<close>

datatype jsval =
    JUndefined
  | JNull
  | JBool bool
  | JNum jsnum
  | JStr string
  | JObj bool "(string \<times> jsval) list"
  | JArr "jsval list"
  | JFun "string \<Rightarrow> jsval"

text \<open>The optional property read \<^verbatim>\<open>v?.p\<close>.\<close>

fun getProp :: "jsval \<Rightarrow> string \<Rightarrow> jsval" where
  "getProp (JObj te ps) p = (case map_of ps p of Some v \<Rightarrow> v | None \<Rightarrow> JUndefined)"
| "getProp v p = JUndefined"

fun nullish :: "jsval \<Rightarrow> bool" where
  "nullish JUndefined = True"
| "nullish JNull = True"
| "nullish v = False"

text \<open>The operator \<^verbatim>\<open>a ?? b\<close>.\<close>

definition coalesce :: "jsval \<Rightarrow> jsval \<Rightarrow> jsval" where
  "coalesce a b = (if nullish a then b else a)"

fun truthy :: "jsval \<Rightarrow> bool" where
  "truthy JUndefined = False"
| "truthy JNull = False"
| "truthy (JBool b) = b"
| "truthy (JNum n) = (case n of Fin q \<Rightarrow> q \<noteq> 0 | NaN \<Rightarrow> False | _ \<Rightarrow> True)"
| "truthy (JStr s) = (s \<noteq> [])"
| "truthy v = True"

text \<open>\<^verbatim>\<open>typeof v === 'object'\<close>.\<close>

fun typeofObject :: "jsval \<Rightarrow> bool" where
  "typeofObject JNull = True"
| "typeofObject (JObj te ps) = True"
| "typeofObject (JArr vs) = True"
| "typeofObject v = False"

fun instanceofTypeError :: "jsval \<Rightarrow> bool" where
  "instanceofTypeError (JObj te ps) = te"
| "instanceofTypeError v = False"

text \<open>The decimal name of an array index, and \<^verbatim>\<open>Object.entries\<close>.\<close>

fun decimalDigits :: "nat \<Rightarrow> nat \<Rightarrow> string" where
  "decimalDigits 0 n = []"
| "decimalDigits (Suc k) n =
     (if n < 10 then [char_of (48 + n)]
      else decimalDigits k (n div 10) @ [char_of (48 + n mod 10)])"

definition indexName :: "nat \<Rightarrow> string" where
  "indexName n = decimalDigits (Suc n) n"

fun entries :: "jsval \<Rightarrow> (string \<times> jsval) list" where
  "entries (JObj te ps) = ps"
| "entries (JArr vs) = zip (map indexName [0 ..< length vs]) vs"
| "entries v = []"

section \<open>The retry engine\<close>

subsection \<open>Public types\<close>

text \<open>
  Everything outside the engine (the clock, the timers, the task, the hooks, the abort signal)
  lives in a world state of type \<open>'w\<close>, threaded through every call.  An \<^verbatim>\<open>AbortSignal\<close> is
  represented by its \<^verbatim>\<open>aborted\<close> getter, read in the current world.
\<close>

type_synonym 'w AbortSignal = "'w \<Rightarrow> bool"

record 'w RetryContext =
  ctx_attempt :: nat
  ctx_maxAttempts :: nat
  ctx_startedAt :: jsnum
  ctx_elapsedMs :: int
  ctx_signal :: "'w AbortSignal option"

datatype Reason = RetryAfter | Backoff

record 'w RetryEvent =
  ev_error :: jsval
  ev_reason :: Reason
  ev_delayMs :: int
  ev_nextAttempt :: nat
  ev_ctx :: "'w RetryContext"

datatype Jitter = Full | NoJitter

datatype BodyUnit = Seconds | Milliseconds

text \<open>
  A field of an options object is absent, present with the value \<^verbatim>\<open>undefined\<close>, or present
  with a value.  The difference between the first two shows in an object spread only.
\<close>

datatype 'a field = Absent | Undef | Val 'a

fun orDefault :: "'a field \<Rightarrow> 'a \<Rightarrow> 'a" where
  "orDefault (Val v) d = v"
| "orDefault f d = d"

fun fieldValue :: "'a field \<Rightarrow> 'a option" where
  "fieldValue (Val v) = Some v"
| "fieldValue f = None"

text \<open>
  The hooks are state transformers on the world.  They return normally: a hook that throws is
  outside this model.  \<^verbatim>\<open>retryAfterBodyUnit\<close> is \<^verbatim>\<open>false\<close> (here \<open>None\<close>) or a unit.
\<close>

record 'w RetryOptions =
  maxAttempts :: "jsnum field"
  baseMs :: "jsnum field"
  capMs :: "jsnum field"
  factor :: "jsnum field"
  jitter :: "Jitter field"
  rng :: "('w \<Rightarrow> jsnum \<times> 'w) field"
  signal :: "'w AbortSignal field"
  maxElapsedMs :: "jsnum field"
  shouldRetry :: "(jsval \<Rightarrow> 'w RetryContext \<Rightarrow> 'w \<Rightarrow> bool \<times> 'w) field"
  onRetry :: "('w RetryEvent \<Rightarrow> 'w \<Rightarrow> 'w) field"
  respectRetryAfter :: "bool field"
  retryAfterHeaderName :: "string field"
  retryAfterBodyUnit :: "BodyUnit option field"
  wrapError :: "bool field"

subsection \<open>Errors\<close>

text \<open>
  What \<^verbatim>\<open>retry\<close> rejects with: a \<^verbatim>\<open>RangeError\<close> of the validation (with the name of the
  offending option), the \<^verbatim>\<open>AbortError\<close> of the engine, a \<^verbatim>\<open>RetryTimeoutError\<close>
  (attempts, elapsedMs, maxElapsedMs and the optional cause), a \<^verbatim>\<open>RetryExhaustedError\<close>
  (attempts, elapsedMs, maxAttempts, startedAt and the cause), or a value thrown by the task,
  passed on as it is.
\<close>

datatype failure =
    RangeError string
  | AbortError
  | RetryTimeoutError nat int jsnum "jsval option"
  | RetryExhaustedError nat int nat jsnum jsval
  | Thrown jsval

subsection \<open>Validation\<close>

definition assertFiniteNonNegative :: "string \<Rightarrow> jsnum option \<Rightarrow> failure option" where
  "assertFiniteNonNegative name n =
     (case n of
        None \<Rightarrow> None
      | Some x \<Rightarrow>
          (if \<not> isFinite x \<or> js_lt x (Fin 0) then Some (RangeError name) else None))"

definition assertFinitePositive :: "string \<Rightarrow> jsnum option \<Rightarrow> failure option" where
  "assertFinitePositive name n =
     (case n of
        None \<Rightarrow> None
      | Some x \<Rightarrow>
          (if \<not> isFinite x \<or> js_le x (Fin 0) then Some (RangeError name) else None))"

definition assertValidMaxAttempts :: "jsnum \<Rightarrow> failure option" where
  "assertValidMaxAttempts m =
     (if \<not> isFinite m \<or> js_lt m (Fin 1) \<or> Math_floor m \<noteq> m
      then Some (RangeError ''maxAttempts'') else None)"

definition toIntMs :: "jsnum \<Rightarrow> int" where
  "toIntMs ms = (case ms of Fin q \<Rightarrow> max 0 (trunc q) | _ \<Rightarrow> 0)"

subsection \<open>Inspecting a thrown value\<close>

definition isString :: "jsval \<Rightarrow> string \<Rightarrow> bool" where
  "isString v s = (case v of JStr t \<Rightarrow> t = s | _ \<Rightarrow> False)"

definition isAbortLikeError :: "jsval \<Rightarrow> bool" where
  "isAbortLikeError e =
     (isString (getProp e ''name'') ''AbortError'' \<or>
      isString (getProp e ''code'') ''ABORT_ERR'' \<or>
      isString (getProp e ''code'') ''ERR_CANCELED'')"

definition getStatus :: "jsval \<Rightarrow> rat option" where
  "getStatus e =
     (let s = coalesce (getProp (getProp e ''response'') ''status'')
                (coalesce (getProp e ''status'') (getProp e ''statusCode''));
          n = (case s of JStr t \<Rightarrow> JNum (Number_of_string t) | _ \<Rightarrow> s)
      in case n of JNum (Fin q) \<Rightarrow> Some q | _ \<Rightarrow> None)"

definition getCode :: "jsval \<Rightarrow> string option" where
  "getCode e = (case getProp e ''code'' of JStr c \<Rightarrow> Some c | _ \<Rightarrow> None)"

definition getMessage :: "jsval \<Rightarrow> string option" where
  "getMessage e = (case getProp e ''message'' of JStr m \<Rightarrow> Some m | _ \<Rightarrow> None)"

definition DEFAULT_RETRIABLE_STATUS :: "rat list" where
  "DEFAULT_RETRIABLE_STATUS = [408, 425, 429, 500, 502, 503, 504]"

definition DEFAULT_RETRIABLE_CODES :: "string list" where
  "DEFAULT_RETRIABLE_CODES =
     [''ECONNRESET'', ''ETIMEDOUT'', ''EAI_AGAIN'', ''ENOTFOUND'', ''ECONNREFUSED'', ''EPIPE'']"

text \<open>The test \<^verbatim>\<open>/network|fetch|timeout/i.test(msg)\<close>.\<close>

definition networkish :: "string \<Rightarrow> bool" where
  "networkish msg =
     (let m = toLowerCase msg
      in str_includes m ''network'' \<or> str_includes m ''fetch'' \<or> str_includes m ''timeout'')"

definition signalAborted :: "'w AbortSignal option \<Rightarrow> 'w \<Rightarrow> bool" where
  "signalAborted sig w = (case sig of None \<Rightarrow> False | Some aborted \<Rightarrow> aborted w)"

definition defaultShouldRetry :: "jsval \<Rightarrow> 'w RetryContext \<Rightarrow> 'w \<Rightarrow> bool" where
  "defaultShouldRetry err ctx w =
     (if signalAborted (ctx_signal ctx) w then False
      else if isAbortLikeError err then False
      else case getStatus err of
          Some status \<Rightarrow> status \<in> set DEFAULT_RETRIABLE_STATUS
        | None \<Rightarrow>
            (if (case getCode err of Some code \<Rightarrow> code \<in> set DEFAULT_RETRIABLE_CODES
                 | None \<Rightarrow> False)
             then True
             else if instanceofTypeError err \<and>
                     (case getMessage err of Some msg \<Rightarrow> msg \<noteq> [] \<and> networkish msg
                      | None \<Rightarrow> False)
             then True
             else True))"

subsection \<open>The platform\<close>

text \<open>
  The functions of the host the engine calls: the clock \<^verbatim>\<open>Date.now\<close> (a reading may be any
  number, and reading it may move the world on), \<^verbatim>\<open>Date.parse\<close> (whose grammar is left to
  the host), \<^verbatim>\<open>Math.random\<close>, the wait for a timer of the given duration, and the same wait
  raced against the \<^verbatim>\<open>abort\<close> event of a signal, which tells whether the abort came first.
\<close>

record 'w Platform =
  Date_now :: "'w \<Rightarrow> jsnum \<times> 'w"
  Date_parse :: "string \<Rightarrow> jsnum"
  Math_random :: "'w \<Rightarrow> jsnum \<times> 'w"
  awaitTimer :: "int \<Rightarrow> 'w \<Rightarrow> 'w"
  awaitTimerOrAbort :: "int \<Rightarrow> 'w AbortSignal \<Rightarrow> 'w \<Rightarrow> bool \<times> 'w"

subsection \<open>The cancellable sleep\<close>

definition sleep ::
  "'w Platform \<Rightarrow> jsnum \<Rightarrow> 'w AbortSignal option \<Rightarrow> 'w \<Rightarrow> failure option \<times> 'w" where
  "sleep P ms sig w =
     (let waitMs = toIntMs ms
      in if waitMs = 0 then
           (if signalAborted sig w then (Some AbortError, w)
            else let w1 = awaitTimer P 0 w
                 in if signalAborted sig w1 then (Some AbortError, w1) else (None, w1))
         else case sig of
             None \<Rightarrow> (None, awaitTimer P waitMs w)
           | Some aborted \<Rightarrow>
               (if aborted w then (Some AbortError, w)
                else case awaitTimerOrAbort P waitMs aborted w of
                       (abortFirst, w1) \<Rightarrow>
                         (if abortFirst then Some AbortError else None, w1)))"

subsection \<open>Retry hints\<close>

fun findHeader :: "(string \<times> jsval) list \<Rightarrow> string \<Rightarrow> string option" where
  "findHeader [] target = None"
| "findHeader ((k, v) # es) target =
     (if toLowerCase k \<noteq> target then findHeader es target
      else case v of
          JStr s \<Rightarrow> Some s
        | JArr (JStr s # vs) \<Rightarrow> Some s
        | _ \<Rightarrow> findHeader es target)"

definition getHeader :: "jsval \<Rightarrow> string \<Rightarrow> string option" where
  "getHeader headers name =
     (if \<not> truthy headers then None
      else case getProp headers ''get'' of
          JFun g \<Rightarrow> (case g name of JStr v \<Rightarrow> Some v | _ \<Rightarrow> None)
        | _ \<Rightarrow>
            (if \<not> typeofObject headers then None
             else findHeader (entries headers) (toLowerCase name)))"

definition parseRetryAfterHeaderMs :: "'w Platform \<Rightarrow> string \<Rightarrow> 'w \<Rightarrow> int option \<times> 'w" where
  "parseRetryAfterHeaderMs P v w =
     (let trimmed = trim v;
          n = Number_of_string trimmed
      in if isFinite n then (Some (toIntMs (js_mul n (Fin 1000))), w)
         else let t = Date_parse P trimmed
              in if isFinite t then
                   (case Date_now P w of (nw, w1) \<Rightarrow> (Some (toIntMs (js_sub t nw)), w1))
                 else (None, w))"

definition readRetryAfterBody :: "jsval \<Rightarrow> jsval" where
  "readRetryAfterBody e =
     coalesce
       (coalesce (getProp (getProp (getProp e ''response'') ''data'') ''retry_after'')
                 (getProp (getProp e ''rawError'') ''retry_after''))
       (getProp (getProp e ''data'') ''retry_after'')"

definition parseRetryAfterBodyMs :: "jsval \<Rightarrow> BodyUnit \<Rightarrow> int option" where
  "parseRetryAfterBodyMs v unit =
     (if nullish v then None
      else let n = (case v of
                      JNum x \<Rightarrow> x
                    | JStr s \<Rightarrow> Number_of_string (trim s)
                    | _ \<Rightarrow> NaN)
           in if \<not> isFinite n then None
              else if unit = Seconds then Some (toIntMs (js_mul n (Fin 1000)))
              else Some (toIntMs n))"

subsection \<open>Backoff and jitter\<close>

definition computeBackoffMs :: "nat \<Rightarrow> jsnum \<Rightarrow> jsnum \<Rightarrow> jsnum \<Rightarrow> int" where
  "computeBackoffMs attempt base cap fac =
     (let raw = js_mul base (js_pow fac (int attempt - 1));
          capped = Math_min cap raw
      in toIntMs capped)"

definition applyFullJitter :: "int \<Rightarrow> ('w \<Rightarrow> jsnum \<times> 'w) \<Rightarrow> 'w \<Rightarrow> int \<times> 'w" where
  "applyFullJitter backoffMs gen w =
     (case gen w of
        (r, w1) \<Rightarrow>
          (let x = (case r of Fin q \<Rightarrow> q | _ \<Rightarrow> 0);
               clamped = max 0 (min (999999999 / 1000000000) x)
           in (toIntMs (Math_floor (Fin (clamped * of_int backoffMs))), w1)))"

subsection \<open>Normalising the options\<close>

record 'w Normalized =
  n_maxAttempts :: nat
  n_baseMs :: jsnum
  n_capMs :: jsnum
  n_factor :: jsnum
  n_jitter :: Jitter
  n_rng :: "'w \<Rightarrow> jsnum \<times> 'w"
  n_respectRetryAfter :: bool
  n_retryAfterHeaderName :: string
  n_retryAfterBodyUnit :: "BodyUnit option"
  n_shouldRetry :: "jsval \<Rightarrow> 'w RetryContext \<Rightarrow> 'w \<Rightarrow> bool \<times> 'w"
  n_signal :: "'w AbortSignal option"
  n_maxElapsedMs :: "jsnum option"
  n_onRetry :: "('w RetryEvent \<Rightarrow> 'w \<Rightarrow> 'w) option"
  n_wrapError :: bool

text \<open>The first assertion that fails decides; \<open>firstFailure\<close> runs them in order.\<close>

fun firstFailure :: "failure option list \<Rightarrow> failure option" where
  "firstFailure [] = None"
| "firstFailure (None # cs) = firstFailure cs"
| "firstFailure (Some e # cs) = Some e"

text \<open>
  After \<open>assertValidMaxAttempts\<close> the number of attempts is a positive integer, and is kept
  as a natural number from there on.
\<close>

definition normalizeOptions :: "'w Platform \<Rightarrow> 'w RetryOptions \<Rightarrow> failure + 'w Normalized" where
  "normalizeOptions P options =
     (let maxAttempts' = orDefault (maxAttempts options) (Fin 3);
          baseMs' = orDefault (baseMs options) (Fin 200);
          capMs' = orDefault (capMs options) (Fin 2000);
          factor' = orDefault (factor options) (Fin 2);
          jitter' = orDefault (jitter options) Full;
          rng' = orDefault (rng options) (Math_random P)
      in case firstFailure
                [assertValidMaxAttempts maxAttempts',
                 assertFiniteNonNegative ''baseMs'' (Some baseMs'),
                 assertFiniteNonNegative ''capMs'' (Some capMs'),
                 assertFinitePositive ''factor'' (Some factor'),
                 assertFiniteNonNegative ''maxElapsedMs'' (fieldValue (maxElapsedMs options))] of
           Some e \<Rightarrow> Inl e
         | None \<Rightarrow>
             (let name = trim (orDefault (retryAfterHeaderName options) ''retry-after'')
              in Inr \<lparr> n_maxAttempts = (case maxAttempts' of Fin q \<Rightarrow> nat \<lfloor>q\<rfloor> | _ \<Rightarrow> 0),
                       n_baseMs = baseMs',
                       n_capMs = capMs',
                       n_factor = factor',
                       n_jitter = jitter',
                       n_rng = rng',
                       n_respectRetryAfter = orDefault (respectRetryAfter options) True,
                       n_retryAfterHeaderName = (if name = [] then ''retry-after'' else name),
                       n_retryAfterBodyUnit = orDefault (retryAfterBodyUnit options) None,
                       n_shouldRetry =
                         orDefault (shouldRetry options)
                           (\<lambda>err ctx w. (defaultShouldRetry err ctx w, w)),
                       n_signal = fieldValue (signal options),
                       n_maxElapsedMs = fieldValue (maxElapsedMs options),
                       n_onRetry = fieldValue (onRetry options),
                       n_wrapError = orDefault (wrapError options) False \<rparr>))"


subsection \<open>The retry loop\<close>

text \<open>
  The loop keeps a log of the calls it makes, in order: each call of the task with its context
  and the value it threw, if any; each call of the classifier with its verdict; each event
  handed to the \<^verbatim>\<open>onRetry\<close> hook; each call of \<open>sleep\<close> with its duration.  The log is not a
  variable of the source: it is there to state what the loop did.
\<close>

datatype 'w action =
    Invoke "'w RetryContext" "jsval option"
  | Classify jsval "'w RetryContext" bool
  | Notify "'w RetryEvent"
  | Sleep int

text \<open>One pass through the body of the loop either settles the promise or goes round again.\<close>

datatype ('w, 'a) step =
    Done "failure + 'a" "'w action list" 'w
  | Again "'w action list" 'w

fun logged :: "'w action list \<Rightarrow> ('w, 'a) step \<Rightarrow> ('w, 'a) step" where
  "logged pre (Done r acts w) = Done r (pre @ acts) w"
| "logged pre (Again acts w) = Again (pre @ acts) w"

fun stepLog :: "('w, 'a) step \<Rightarrow> 'w action list" where
  "stepLog (Done r acts w) = acts"
| "stepLog (Again acts w) = acts"

text \<open>
  The test \<^verbatim>\<open>opts.maxElapsedMs != null && x > opts.maxElapsedMs\<close>, returning the budget that
  is exceeded.
\<close>

definition overBudget :: "jsnum option \<Rightarrow> int \<Rightarrow> jsnum option" where
  "overBudget budget x =
     (case budget of
        None \<Rightarrow> None
      | Some m \<Rightarrow> (if js_gt (num x) m then Some m else None))"

text \<open>
  The block guarded by \<^verbatim>\<open>opts.respectRetryAfter && status === 429\<close>: the delay of the hint,
  from the header first and from the body next, or nothing.
\<close>

definition retryAfterHint ::
  "'w Platform \<Rightarrow> 'w Normalized \<Rightarrow> jsval \<Rightarrow> 'w \<Rightarrow> int option \<times> 'w" where
  "retryAfterHint P opts err w =
     (if n_respectRetryAfter opts \<and> getStatus err = Some 429 then
        (let headers = getProp (getProp err ''response'') ''headers'';
             h = getHeader headers (n_retryAfterHeaderName opts)
         in case (case h of
                    Some hv \<Rightarrow> parseRetryAfterHeaderMs P hv w
                  | None \<Rightarrow> (None, w)) of
              (Some parsed, w1) \<Rightarrow> (Some parsed, w1)
            | (None, w1) \<Rightarrow>
                (case n_retryAfterBodyUnit opts of
                   None \<Rightarrow> (None, w1)
                 | Some unit \<Rightarrow> (parseRetryAfterBodyMs (readRetryAfterBody err) unit, w1)))
      else (None, w))"

text \<open>The reason and the delay of the next wait, normalised by \<open>toIntMs\<close>.\<close>

definition planDelay ::
  "'w Platform \<Rightarrow> 'w Normalized \<Rightarrow> jsval \<Rightarrow> nat \<Rightarrow> 'w \<Rightarrow> (Reason \<times> int) \<times> 'w" where
  "planDelay P opts err attempt w =
     (case retryAfterHint P opts err w of
        (Some d, w1) \<Rightarrow> ((RetryAfter, toIntMs (num d)), w1)
      | (None, w1) \<Rightarrow>
          (let backoff = computeBackoffMs attempt (n_baseMs opts) (n_capMs opts) (n_factor opts)
           in case (if n_jitter opts = Full then applyFullJitter backoff (n_rng opts) w1
                    else (backoff, w1)) of
                (d, w2) \<Rightarrow> ((Backoff, toIntMs (num d)), w2)))"

definition giveUp :: "'w Normalized \<Rightarrow> nat \<Rightarrow> int \<Rightarrow> jsnum \<Rightarrow> jsval \<Rightarrow> failure" where
  "giveUp opts attempt elapsed startedAt err =
     (if n_wrapError opts
      then RetryExhaustedError attempt elapsed (n_maxAttempts opts) startedAt err
      else Thrown err)"

text \<open>The \<^verbatim>\<open>catch\<close> block; \<open>attempt\<close> is the number of the attempt that failed.\<close>

definition retry_catch ::
  "'w Platform \<Rightarrow> 'w Normalized \<Rightarrow> jsnum \<Rightarrow> nat \<Rightarrow> 'w RetryContext \<Rightarrow> jsval \<Rightarrow> 'w
     \<Rightarrow> ('w, 'a) step" where
  "retry_catch P opts startedAt attempt ctx err w =
     (if isAbortLikeError err then Done (Inl (Thrown err)) [] w
      else case Date_now P w of
        (t, w1) \<Rightarrow>
          (let elapsed = toIntMs (js_sub t startedAt)
           in if n_maxAttempts opts \<le> attempt
              then Done (Inl (giveUp opts attempt elapsed startedAt err)) [] w1
              else if signalAborted (n_signal opts) w1 then Done (Inl AbortError) [] w1
              else
                let updatedCtx = ctx\<lparr>ctx_elapsedMs := elapsed\<rparr>
                in case n_shouldRetry opts err updatedCtx w1 of
                  (retriable, w2) \<Rightarrow>
                    (if \<not> retriable
                     then Done (Inl (giveUp opts attempt elapsed startedAt err))
                            [Classify err updatedCtx False] w2
                     else case planDelay P opts err attempt w2 of
                       ((why, delay), w3) \<Rightarrow>
                         (case overBudget (n_maxElapsedMs opts) (elapsed + delay) of
                            Some m \<Rightarrow>
                              Done (Inl (RetryTimeoutError attempt elapsed m (Some err)))
                                [Classify err updatedCtx True] w3
                          | None \<Rightarrow>
                              (let event = \<lparr> ev_error = err, ev_reason = why,
                                             ev_delayMs = delay, ev_nextAttempt = attempt + 1,
                                             ev_ctx = updatedCtx \<rparr>;
                                   told = (case n_onRetry opts of
                                             None \<Rightarrow> ([], w3)
                                           | Some hook \<Rightarrow> ([Notify event], hook event w3));
                                   acts = Classify err updatedCtx True # fst told @ [Sleep delay]
                               in case sleep P (num delay) (n_signal opts) (snd told) of
                                    (Some e, w5) \<Rightarrow> Done (Inl e) acts w5
                                  | (None, w5) \<Rightarrow> Again acts w5)))))"

text \<open>The body of \<^verbatim>\<open>for (;;)\<close>; \<open>attempt\<close> is the number of attempts made so far.\<close>

definition retry_body ::
  "'w Platform \<Rightarrow> ('w RetryContext \<Rightarrow> 'w \<Rightarrow> (jsval + 'a) \<times> 'w) \<Rightarrow> 'w Normalized \<Rightarrow> jsnum
     \<Rightarrow> nat \<Rightarrow> 'w \<Rightarrow> ('w, 'a) step" where
  "retry_body P task opts startedAt attempt w =
     (if signalAborted (n_signal opts) w then Done (Inl AbortError) [] w
      else case Date_now P w of
        (t0, w1) \<Rightarrow>
          (let elapsedMs0 = toIntMs (js_sub t0 startedAt)
           in case overBudget (n_maxElapsedMs opts) elapsedMs0 of
                Some m \<Rightarrow> Done (Inl (RetryTimeoutError attempt elapsedMs0 m None)) [] w1
              | None \<Rightarrow>
                  (case Date_now P w1 of
                     (t1, w2) \<Rightarrow>
                       (let ctx = \<lparr> ctx_attempt = Suc attempt,
                                     ctx_maxAttempts = n_maxAttempts opts,
                                     ctx_startedAt = startedAt,
                                     ctx_elapsedMs = toIntMs (js_sub t1 startedAt),
                                     ctx_signal = n_signal opts \<rparr>
                        in case task ctx w2 of
                             (Inr v, w3) \<Rightarrow> Done (Inr v) [Invoke ctx None] w3
                           | (Inl err, w3) \<Rightarrow>
                               logged [Invoke ctx (Some err)]
                                 (retry_catch P opts startedAt (Suc attempt) ctx err w3)))))"

text \<open>
  The loop itself.  It goes round again only after a failed attempt whose number is below
  \<open>n_maxAttempts\<close>, which is why it ends.
\<close>

function retry_loop ::
  "'w Platform \<Rightarrow> ('w RetryContext \<Rightarrow> 'w \<Rightarrow> (jsval + 'a) \<times> 'w) \<Rightarrow> 'w Normalized \<Rightarrow> jsnum
     \<Rightarrow> nat \<Rightarrow> 'w \<Rightarrow> (failure + 'a) \<times> 'w action list \<times> 'w" where
  "retry_loop P task opts startedAt attempt w =
     (case retry_body P task opts startedAt attempt w of
        Done r acts w1 \<Rightarrow> (r, acts, w1)
      | Again acts w1 \<Rightarrow>
          (case retry_loop P task opts startedAt (Suc attempt) w1 of
             (r, acts', w2) \<Rightarrow> (r, acts @ acts', w2)))"
  by pat_completeness auto
termination
  by (relation "measure (\<lambda>(P, task, opts, startedAt, attempt, w). n_maxAttempts opts - attempt)")
     (auto simp: retry_body_def retry_catch_def Let_def
           split: if_splits prod.splits option.splits sum.splits)

definition retry ::
  "'w Platform \<Rightarrow> ('w RetryContext \<Rightarrow> 'w \<Rightarrow> (jsval + 'a) \<times> 'w) \<Rightarrow> 'w RetryOptions \<Rightarrow> 'w
     \<Rightarrow> (failure + 'a) \<times> 'w action list \<times> 'w" where
  "retry P task options w =
     (case normalizeOptions P options of
        Inl e \<Rightarrow> (Inl e, [], w)
      | Inr opts \<Rightarrow>
          (case Date_now P w of
             (startedAt, w1) \<Rightarrow> retry_loop P task opts startedAt 0 w1))"

subsection \<open>The factory\<close>

definition emptyOptions :: "'w RetryOptions" where
  "emptyOptions =
     \<lparr> maxAttempts = Absent, baseMs = Absent, capMs = Absent, factor = Absent,
       jitter = Absent, rng = Absent, signal = Absent, maxElapsedMs = Absent,
       shouldRetry = Absent, onRetry = Absent, respectRetryAfter = Absent,
       retryAfterHeaderName = Absent, retryAfterBodyUnit = Absent, wrapError = Absent \<rparr>"

text \<open>
  The object spread \<^verbatim>\<open>{ ...a, ...b }\<close>: every property that \<open>b\<close> has, whatever its value,
  replaces the property of \<open>a\<close>.
\<close>

fun spreadField :: "'a field \<Rightarrow> 'a field \<Rightarrow> 'a field" where
  "spreadField a Absent = a"
| "spreadField a b = b"

definition spread :: "'w RetryOptions \<Rightarrow> 'w RetryOptions \<Rightarrow> 'w RetryOptions" where
  "spread a b =
     \<lparr> maxAttempts = spreadField (maxAttempts a) (maxAttempts b),
       baseMs = spreadField (baseMs a) (baseMs b),
       capMs = spreadField (capMs a) (capMs b),
       factor = spreadField (factor a) (factor b),
       jitter = spreadField (jitter a) (jitter b),
       rng = spreadField (rng a) (rng b),
       signal = spreadField (signal a) (signal b),
       maxElapsedMs = spreadField (maxElapsedMs a) (maxElapsedMs b),
       shouldRetry = spreadField (shouldRetry a) (shouldRetry b),
       onRetry = spreadField (onRetry a) (onRetry b),
       respectRetryAfter = spreadField (respectRetryAfter a) (respectRetryAfter b),
       retryAfterHeaderName = spreadField (retryAfterHeaderName a) (retryAfterHeaderName b),
       retryAfterBodyUnit = spreadField (retryAfterBodyUnit a) (retryAfterBodyUnit b),
       wrapError = spreadField (wrapError a) (wrapError b) \<rparr>"

text \<open>
  \<^verbatim>\<open>createRetry(defaultOptions)(task, options)\<close>; an argument left out (\<open>None\<close>) takes its default
  value, the empty object.
\<close>

definition createRetry ::
  "'w Platform \<Rightarrow> 'w RetryOptions option \<Rightarrow> ('w RetryContext \<Rightarrow> 'w \<Rightarrow> (jsval + 'a) \<times> 'w)
     \<Rightarrow> 'w RetryOptions option \<Rightarrow> 'w \<Rightarrow> (failure + 'a) \<times> 'w action list \<times> 'w" where
  "createRetry P defaultOptions task options w =
     (let defaultOptions' = (case defaultOptions of None \<Rightarrow> emptyOptions | Some d \<Rightarrow> d);
          options' = (case options of None \<Rightarrow> emptyOptions | Some ov \<Rightarrow> ov)
      in retry P task (spread defaultOptions' options') w)"


section \<open>Reading the log\<close>

fun invocations :: "'w action list \<Rightarrow> 'w RetryContext list" where
  "invocations [] = []"
| "invocations (Invoke ctx e # as) = ctx # invocations as"
| "invocations (a # as) = invocations as"

fun notified :: "'w action list \<Rightarrow> 'w RetryEvent list" where
  "notified [] = []"
| "notified (Notify ev # as) = ev # notified as"
| "notified (a # as) = notified as"

fun sleeps :: "'w action list \<Rightarrow> int list" where
  "sleeps [] = []"
| "sleeps (Sleep d # as) = d # sleeps as"
| "sleeps (a # as) = sleeps as"



section \<open>The delay formulas of the specification\<close>



section \<open>The configurations the specification calls invalid\<close>

text \<open>
  In the words of the specification: \<^verbatim>\<open>maxAttempts\<close> is not an integer at least 1, or one of
  \<^verbatim>\<open>baseMs\<close>, \<^verbatim>\<open>capMs\<close>, \<^verbatim>\<open>maxElapsedMs\<close> is present but not a finite number at least 0, or
  \<^verbatim>\<open>factor\<close> is present but not a finite number above 0.
\<close>

definition integerAtLeast1 :: "jsnum \<Rightarrow> bool" where
  "integerAtLeast1 x = (case x of Fin q \<Rightarrow> of_int \<lfloor>q\<rfloor> = q \<and> 1 \<le> q | _ \<Rightarrow> False)"

definition finiteNonNegative :: "jsnum \<Rightarrow> bool" where
  "finiteNonNegative x = (case x of Fin q \<Rightarrow> 0 \<le> q | _ \<Rightarrow> False)"

definition finitePositive :: "jsnum \<Rightarrow> bool" where
  "finitePositive x = (case x of Fin q \<Rightarrow> 0 < q | _ \<Rightarrow> False)"

definition presentBut :: "'a field \<Rightarrow> ('a \<Rightarrow> bool) \<Rightarrow> bool" where
  "presentBut f bad = (case f of Val x \<Rightarrow> bad x | _ \<Rightarrow> False)"

definition invalidConfiguration :: "'w RetryOptions \<Rightarrow> bool" where
  "invalidConfiguration options =
     (presentBut (maxAttempts options) (\<lambda>x. \<not> integerAtLeast1 x) \<or>
      presentBut (baseMs options) (\<lambda>x. \<not> finiteNonNegative x) \<or>
      presentBut (capMs options) (\<lambda>x. \<not> finiteNonNegative x) \<or>
      presentBut (maxElapsedMs options) (\<lambda>x. \<not> finiteNonNegative x) \<or>
      presentBut (factor options) (\<lambda>x. \<not> finitePositive x))"

section \<open>A small host for running the engine\<close>

text \<open>
  The world is the current time in milliseconds.  The clock reads it, a timer moves it on by
  its duration, dates do not parse, and the abort event never comes first.
\<close>

definition simPlatform :: "int Platform" where
  "simPlatform =
     \<lparr> Date_now = (\<lambda>w. (num w, w)),
       Date_parse = (\<lambda>s. NaN),
       Math_random = (\<lambda>w. (Fin (1 / 2), w)),
       awaitTimer = (\<lambda>ms w. w + ms),
       awaitTimerOrAbort = (\<lambda>ms sig w. (False, w + ms)) \<rparr>"

text \<open>A task that always throws the same value, and one that succeeds from some attempt on.\<close>

definition failing :: "jsval \<Rightarrow> int RetryContext \<Rightarrow> int \<Rightarrow> (jsval + string) \<times> int" where
  "failing err ctx w = (Inl err, w)"

definition succeedsAt ::
  "nat \<Rightarrow> jsval \<Rightarrow> int RetryContext \<Rightarrow> int \<Rightarrow> (jsval + string) \<times> int" where
  "succeedsAt n err ctx w = (if n \<le> ctx_attempt ctx then (Inr ''ok'', w) else (Inl err, w))"


text \<open>A host whose clock moves on by 10 ms each time it is read.\<close>

definition tickingPlatform :: "int Platform" where
  "tickingPlatform =
     \<lparr> Date_now = (\<lambda>w. (num w, w + 10)),
       Date_parse = (\<lambda>s. NaN),
       Math_random = (\<lambda>w. (Fin (1 / 2), w)),
       awaitTimer = (\<lambda>ms w. w + ms),
       awaitTimerOrAbort = (\<lambda>ms sig w. (False, w + ms)) \<rparr>"

text \<open>
  A host whose world is the time and the state of one abort signal, and in which the abort
  arrives as soon as a wait raced against the signal begins.
\<close>

definition abortingPlatform :: "(int \<times> bool) Platform" where
  "abortingPlatform =
     \<lparr> Date_now = (\<lambda>w. (num (fst w), w)),
       Date_parse = (\<lambda>s. NaN),
       Math_random = (\<lambda>w. (Fin (1 / 2), w)),
       awaitTimer = (\<lambda>ms w. (fst w + ms, snd w)),
       awaitTimerOrAbort = (\<lambda>ms sig w. (True, (fst w, True))) \<rparr>"

definition failingAlways ::
  "jsval \<Rightarrow> (int \<times> bool) RetryContext \<Rightarrow> int \<times> bool \<Rightarrow> (jsval + string) \<times> (int \<times> bool)" where
  "failingAlways err ctx w = (Inl err, w)"

text \<open>A random source that always returns the same number, and a hook that does nothing.\<close>

definition constantDraw :: "rat \<Rightarrow> 'w \<Rightarrow> jsnum \<times> 'w" where
  "constantDraw q w = (Fin q, w)"

definition quietHook :: "'w RetryEvent \<Rightarrow> 'w \<Rightarrow> 'w" where
  "quietHook ev w = w"

section \<open>Properties of the loop body\<close>

declare retry_loop.simps [simp del]

lemma invocations_append: "invocations (xs @ ys) = invocations xs @ invocations ys"
  by (induction xs rule: invocations.induct) auto

lemma notified_append: "notified (xs @ ys) = notified xs @ notified ys"
  by (induction xs rule: notified.induct) auto

lemma sleeps_append: "sleeps (xs @ ys) = sleeps xs @ sleeps ys"
  by (induction xs rule: sleeps.induct) auto

lemma stepLog_logged: "stepLog (logged pre st) = pre @ stepLog st"
  by (cases st) auto

lemma retry_catch_Again:
  "retry_catch P opts startedAt attempt ctx err w = Again acts w' \<Longrightarrow> attempt < n_maxAttempts opts"
  by (auto simp: retry_catch_def Let_def split: if_splits prod.splits option.splits)

lemma retry_body_Again:
  "retry_body P task opts startedAt attempt w = Again acts w' \<Longrightarrow> Suc attempt < n_maxAttempts opts"
  by (auto simp: retry_body_def retry_catch_def Let_def
      split: if_splits prod.splits option.splits sum.splits)

lemma retry_catch_invocations:
  "invocations (stepLog (retry_catch P opts s a ctx err w :: ('w, 'a) step)) = []"
  by (auto simp: retry_catch_def Let_def split: prod.splits option.splits)

lemma retry_body_invocations:
  "map ctx_attempt (invocations (stepLog (retry_body P task opts s a w :: ('w, 'a) step))) = [] \<or>
   map ctx_attempt (invocations (stepLog (retry_body P task opts s a w :: ('w, 'a) step))) = [Suc a]"
  by (auto simp: retry_body_def Let_def stepLog_logged invocations_append retry_catch_invocations
      split: prod.splits option.splits sum.splits)

lemma retry_body_Again_invocations:
  "retry_body P task opts s a w = (Again acts w' :: ('w, 'a) step)
   \<Longrightarrow> map ctx_attempt (invocations acts) = [Suc a]"
proof -
  assume h: "retry_body P task opts s a w = (Again acts w' :: ('w, 'a) step)"
  then obtain ctx err w3 where
    l: "logged [Invoke ctx (Some err)] (retry_catch P opts s (Suc a) ctx err w3)
       = (Again acts w' :: ('w, 'a) step)" and c: "ctx_attempt ctx = Suc a"
    by (auto simp: retry_body_def Let_def split: if_splits prod.splits option.splits sum.splits)
  have "stepLog (logged [Invoke ctx (Some err)]
          (retry_catch P opts s (Suc a) ctx err w3 :: ('w, 'a) step)) = acts"
    using l by simp
  then have "acts = [Invoke ctx (Some err)]
               @ stepLog (retry_catch P opts s (Suc a) ctx err w3 :: ('w, 'a) step)"
    by (simp add: stepLog_logged)
  then show ?thesis using c
    by (simp add: invocations_append retry_catch_invocations)
qed

section \<open>The attempts of a run\<close>

lemma upt_one: "[Suc a ..< Suc (Suc a)] = [Suc a]"
  by (simp add: upt_conv_Cons)

text \<open>
  From any point of the loop on, the attempts are numbered consecutively and stay within
  \<open>n_maxAttempts\<close>.
\<close>

lemma retry_loop_attempts:
  "a < n_maxAttempts opts \<Longrightarrow>
   map ctx_attempt (invocations (fst (snd (retry_loop P task opts s a w))))
     = [Suc a ..< Suc a + length (invocations (fst (snd (retry_loop P task opts s a w))))] \<and>
   a + length (invocations (fst (snd (retry_loop P task opts s a w)))) \<le> n_maxAttempts opts"
proof (induction P task opts s a w rule: retry_loop.induct)
  case (1 P task opts s a w)
  show ?case
  proof (cases "retry_body P task opts s a w")
    case (Done r acts w1)
    have eq: "retry_loop P task opts s a w = (r, acts, w1)"
      by (subst retry_loop.simps) (simp add: Done)
    have "map ctx_attempt (invocations acts) = [] \<or> map ctx_attempt (invocations acts) = [Suc a]"
      using retry_body_invocations [of P task opts s a w] Done by simp
    then show ?thesis
    proof
      assume "map ctx_attempt (invocations acts) = []"
      then show ?thesis using "1.prems" unfolding eq by simp
    next
      assume h: "map ctx_attempt (invocations acts) = [Suc a]"
      then have "length (invocations acts) = 1"
        using length_map [of ctx_attempt "invocations acts"] by simp
      then show ?thesis using "1.prems" h unfolding eq by (simp add: upt_one)
    qed
  next
    case (Again acts w1)
    have lt: "Suc a < n_maxAttempts opts" using Again by (rule retry_body_Again)
    have one: "map ctx_attempt (invocations acts) = [Suc a]"
      using Again by (rule retry_body_Again_invocations)
    then have len: "length (invocations acts) = 1"
      using length_map [of ctx_attempt "invocations acts"] by simp
    note ih = "1.IH" [OF Again lt]
    obtain r acts' w2 where rest: "retry_loop P task opts s (Suc a) w1 = (r, acts', w2)"
      by (cases "retry_loop P task opts s (Suc a) w1") auto
    have eq: "retry_loop P task opts s a w = (r, acts @ acts', w2)"
      by (subst retry_loop.simps) (simp add: Again rest)
    let ?k = "length (invocations acts')"
    have m: "map ctx_attempt (invocations acts') = [Suc (Suc a) ..< Suc (Suc a) + ?k]"
      and b: "Suc a + ?k \<le> n_maxAttempts opts"
      using ih unfolding rest by simp_all
    have e: "Suc a + (1 + ?k) = Suc (Suc a) + ?k" by simp
    have "[Suc a ..< Suc (Suc a) + ?k] = Suc a # [Suc (Suc a) ..< Suc (Suc a) + ?k]"
      by (rule upt_conv_Cons) simp
    then have u: "[Suc a ..< Suc a + (1 + ?k)] = Suc a # [Suc (Suc a) ..< Suc (Suc a) + ?k]"
      by (simp only: e)
    have "map ctx_attempt (invocations (acts @ acts')) = [Suc a ..< Suc a + (1 + ?k)]"
      unfolding u by (simp only: invocations_append map_append one m append.simps)
    moreover have "length (invocations (acts @ acts')) = 1 + ?k"
      by (simp only: invocations_append length_append len)
    ultimately show ?thesis
      using b unfolding eq by simp
  qed
qed

section \<open>Validation\<close>

lemma assertValidMaxAttempts_None:
  assumes "assertValidMaxAttempts m = None"
  shows "m = Fin (of_nat (case m of Fin q \<Rightarrow> nat \<lfloor>q\<rfloor> | _ \<Rightarrow> 0)) \<and>
         1 \<le> (case m of Fin q \<Rightarrow> nat \<lfloor>q\<rfloor> | _ \<Rightarrow> 0)"
proof (cases m)
  case (Fin q)
  from assms Fin have q1: "1 \<le> q" and "\<exists>n. q = rat_of_int n"
    by (auto simp: assertValidMaxAttempts_def split: if_splits)
  then obtain n where n: "q = rat_of_int n" by blast
  from q1 n have "1 \<le> n" by simp
  then show ?thesis using Fin n by simp
qed (use assms in \<open>auto simp: assertValidMaxAttempts_def\<close>)

lemma firstFailure_None: "firstFailure cs = None \<Longrightarrow> c \<in> set cs \<Longrightarrow> c = None"
  by (induction cs rule: firstFailure.induct) auto

lemma normalizeOptions_Inr:
  assumes "normalizeOptions P options = Inr opts"
  shows "orDefault (maxAttempts options) (Fin 3) = Fin (of_nat (n_maxAttempts opts))"
    and "1 \<le> n_maxAttempts opts"
    and "\<exists>b. n_baseMs opts = Fin b \<and> 0 \<le> b"
    and "\<exists>c. n_capMs opts = Fin c \<and> 0 \<le> c"
    and "\<exists>f. n_factor opts = Fin f \<and> 0 < f"
    and "n_maxElapsedMs opts = fieldValue (maxElapsedMs options)"
    and "n_maxElapsedMs opts = Some m \<Longrightarrow> \<exists>q. m = Fin q \<and> 0 \<le> q"
proof -
  let ?cs = "[assertValidMaxAttempts (orDefault (maxAttempts options) (Fin 3)),
                 assertFiniteNonNegative ''baseMs'' (Some (orDefault (baseMs options) (Fin 200))),
                 assertFiniteNonNegative ''capMs'' (Some (orDefault (capMs options) (Fin 2000))),
                 assertFinitePositive ''factor'' (Some (orDefault (factor options) (Fin 2))),
                 assertFiniteNonNegative ''maxElapsedMs'' (fieldValue (maxElapsedMs options))]"
  from assms have ff: "firstFailure ?cs = None"
    by (simp add: normalizeOptions_def Let_def split: option.splits)
  have a1: "assertValidMaxAttempts (orDefault (maxAttempts options) (Fin 3)) = None"
    and a2: "assertFiniteNonNegative ''baseMs'' (Some (orDefault (baseMs options) (Fin 200))) = None"
    and a3: "assertFiniteNonNegative ''capMs'' (Some (orDefault (capMs options) (Fin 2000))) = None"
    and a4: "assertFinitePositive ''factor'' (Some (orDefault (factor options) (Fin 2))) = None"
    and a5: "assertFiniteNonNegative ''maxElapsedMs'' (fieldValue (maxElapsedMs options)) = None"
    using firstFailure_None [OF ff] by simp_all
  from assms ff have o: "opts = \<lparr> n_maxAttempts = (case orDefault (maxAttempts options) (Fin 3) of Fin q \<Rightarrow> nat \<lfloor>q\<rfloor> | _ \<Rightarrow> 0),
                       n_baseMs = orDefault (baseMs options) (Fin 200),
                       n_capMs = orDefault (capMs options) (Fin 2000),
                       n_factor = orDefault (factor options) (Fin 2),
                       n_jitter = orDefault (jitter options) Full,
                       n_rng = orDefault (rng options) (Math_random P),
                       n_respectRetryAfter = orDefault (respectRetryAfter options) True,
                       n_retryAfterHeaderName = (if trim (orDefault (retryAfterHeaderName options) ''retry-after'') = [] then ''retry-after'' else trim (orDefault (retryAfterHeaderName options) ''retry-after'')),
                       n_retryAfterBodyUnit = orDefault (retryAfterBodyUnit options) None,
                       n_shouldRetry =
                         orDefault (shouldRetry options)
                           (\<lambda>err ctx w. (defaultShouldRetry err ctx w, w)),
                       n_signal = fieldValue (signal options),
                       n_maxElapsedMs = fieldValue (maxElapsedMs options),
                       n_onRetry = fieldValue (onRetry options),
                       n_wrapError = orDefault (wrapError options) False \<rparr>"
    by (simp add: normalizeOptions_def Let_def)
  show "orDefault (maxAttempts options) (Fin 3) = Fin (of_nat (n_maxAttempts opts))"
    and "1 \<le> n_maxAttempts opts"
    using assertValidMaxAttempts_None [OF a1] by (simp_all add: o)
  show "\<exists>b. n_baseMs opts = Fin b \<and> 0 \<le> b"
    using a2 by (cases "orDefault (baseMs options) (Fin 200)")
      (auto simp: o assertFiniteNonNegative_def split: if_splits)
  show "\<exists>c. n_capMs opts = Fin c \<and> 0 \<le> c"
    using a3 by (cases "orDefault (capMs options) (Fin 2000)")
      (auto simp: o assertFiniteNonNegative_def split: if_splits)
  show "\<exists>f. n_factor opts = Fin f \<and> 0 < f"
    using a4 by (cases "orDefault (factor options) (Fin 2)")
      (auto simp: o assertFinitePositive_def split: if_splits)
  show "n_maxElapsedMs opts = fieldValue (maxElapsedMs options)" by (simp add: o)
  show "n_maxElapsedMs opts = Some m \<Longrightarrow> \<exists>q. m = Fin q \<and> 0 \<le> q"
    using a5 by (cases m) (auto simp: o assertFiniteNonNegative_def split: if_splits)
qed


lemmas engine_defs =
  retry_def normalizeOptions_def emptyOptions_def assertValidMaxAttempts_def
  assertFiniteNonNegative_def assertFinitePositive_def trim_def isWhiteSpace_def
  retry_body_def retry_catch_def signalAborted_def overBudget_def toIntMs_def trunc_def
  js_sub_def js_gt_def js_ge_def num_def isAbortLikeError_def isString_def planDelay_def
  retryAfterHint_def getStatus_def coalesce_def computeBackoffMs_def applyFullJitter_def
  js_pow_def giveUp_def sleep_def defaultShouldRetry_def getCode_def getMessage_def
  DEFAULT_RETRIABLE_STATUS_def DEFAULT_RETRIABLE_CODES_def simPlatform_def failing_def
  succeedsAt_def abortingPlatform_def failingAlways_def tickingPlatform_def
  constantDraw_def quietHook_def Let_def

section \<open>Claims\<close>

text \<open>
  C1.  For every valid configuration and every task, the loop invokes the task at most
  \<^verbatim>\<open>maxAttempts\<close> times, and the contexts handed to the task carry the attempt numbers
  1, 2, 3, ... in this order, each between 1 and \<^verbatim>\<open>maxAttempts\<close>.  A configuration is valid
  when \<open>normalizeOptions\<close> accepts it; the bound \<open>n_maxAttempts\<close> is then the configured
  \<^verbatim>\<open>maxAttempts\<close>, or 3 if there is none.
\<close>

theorem retry_attempts_within_maxAttempts:
  assumes "normalizeOptions P options = Inr opts"
  shows "length (invocations (fst (snd (retry P task options w)))) \<le> n_maxAttempts opts \<and>
         map ctx_attempt (invocations (fst (snd (retry P task options w))))
           = [1 ..< Suc (length (invocations (fst (snd (retry P task options w)))))] \<and>
         (\<forall>ctx \<in> set (invocations (fst (snd (retry P task options w)))).
            1 \<le> ctx_attempt ctx \<and> ctx_attempt ctx \<le> n_maxAttempts opts) \<and>
         orDefault (maxAttempts options) (Fin 3) = Fin (of_nat (n_maxAttempts opts))"
proof -
  obtain s w1 where clock: "Date_now P w = (s, w1)"
    by (cases "Date_now P w") auto
  have r: "retry P task options w = retry_loop P task opts s 0 w1"
    by (simp add: retry_def assms clock)
  have pos: "0 < n_maxAttempts opts"
    using normalizeOptions_Inr(2) [OF assms] by simp
  let ?inv = "invocations (fst (snd (retry P task options w)))"
  from retry_loop_attempts [OF pos, of P task s w1]
  have m: "map ctx_attempt ?inv = [1 ..< Suc (length ?inv)]"
    and b: "length ?inv \<le> n_maxAttempts opts"
    unfolding r by simp_all
  have "\<forall>ctx \<in> set ?inv. 1 \<le> ctx_attempt ctx \<and> ctx_attempt ctx \<le> n_maxAttempts opts"
  proof
    fix ctx assume "ctx \<in> set ?inv"
    then have "ctx_attempt ctx \<in> set (map ctx_attempt ?inv)" by simp
    then have "ctx_attempt ctx \<in> set [1 ..< Suc (length ?inv)]" by (simp only: m)
    then have "1 \<le> ctx_attempt ctx \<and> ctx_attempt ctx < Suc (length ?inv)"
      by (simp only: set_upt atLeastLessThan_iff)
    then show "1 \<le> ctx_attempt ctx \<and> ctx_attempt ctx \<le> n_maxAttempts opts"
      using b by linarith
  qed
  then show ?thesis
    using m b normalizeOptions_Inr(1) [OF assms] by blast
qed

theorem retry_attempts_within_maxAttempts_witness:
  "length (invocations (fst (snd (retry simPlatform (failing (JObj False [])) emptyOptions 0)))) \<le> 3 \<and>
   map ctx_attempt (invocations (fst (snd (retry simPlatform (failing (JObj False [])) emptyOptions 0))))
     = [1 ..< Suc (length (invocations
         (fst (snd (retry simPlatform (failing (JObj False [])) emptyOptions 0)))))]"
proof -
  obtain opts where n: "normalizeOptions simPlatform emptyOptions = Inr opts"
    and m: "n_maxAttempts opts = 3"
    by (simp add: engine_defs)
  show ?thesis
    using retry_attempts_within_maxAttempts [OF n, of "failing (JObj False [])" 0] m by simp
qed

text \<open>The assertions of \<open>normalizeOptions\<close>, in the terms of the specification.\<close>

lemma assertValidMaxAttempts_iff:
  "assertValidMaxAttempts m = (if integerAtLeast1 m then None else Some (RangeError ''maxAttempts''))"
  by (cases m) (auto simp: assertValidMaxAttempts_def integerAtLeast1_def)

lemma assertFiniteNonNegative_iff:
  "assertFiniteNonNegative name (Some x)
     = (if finiteNonNegative x then None else Some (RangeError name))"
  by (cases x) (auto simp: assertFiniteNonNegative_def finiteNonNegative_def)

lemma assertFinitePositive_iff:
  "assertFinitePositive name (Some x)
     = (if finitePositive x then None else Some (RangeError name))"
  by (cases x) (auto simp: assertFinitePositive_def finitePositive_def)

lemma assertFiniteNonNegative_field:
  "assertFiniteNonNegative name (fieldValue f)
     = (if presentBut f (\<lambda>x. \<not> finiteNonNegative x) then Some (RangeError name) else None)"
  by (cases f) (simp_all add: presentBut_def assertFiniteNonNegative_iff, simp_all add: assertFiniteNonNegative_def)

lemma presentBut_orDefault:
  "good d \<Longrightarrow> presentBut f (\<lambda>x. \<not> good x) = (\<not> good (orDefault f d))"
  by (cases f) (simp_all add: presentBut_def)

lemma invalidConfiguration_iff:
  "invalidConfiguration options =
     (\<not> integerAtLeast1 (orDefault (maxAttempts options) (Fin 3)) \<or>
      \<not> finiteNonNegative (orDefault (baseMs options) (Fin 200)) \<or>
      \<not> finiteNonNegative (orDefault (capMs options) (Fin 2000)) \<or>
      presentBut (maxElapsedMs options) (\<lambda>x. \<not> finiteNonNegative x) \<or>
      \<not> finitePositive (orDefault (factor options) (Fin 2)))"
proof -
  have 1: "presentBut (maxAttempts options) (\<lambda>x. \<not> integerAtLeast1 x)
             = (\<not> integerAtLeast1 (orDefault (maxAttempts options) (Fin 3)))"
    by (rule presentBut_orDefault) (simp add: integerAtLeast1_def)
  have 2: "presentBut (baseMs options) (\<lambda>x. \<not> finiteNonNegative x)
             = (\<not> finiteNonNegative (orDefault (baseMs options) (Fin 200)))"
    by (rule presentBut_orDefault) (simp add: finiteNonNegative_def)
  have 3: "presentBut (capMs options) (\<lambda>x. \<not> finiteNonNegative x)
             = (\<not> finiteNonNegative (orDefault (capMs options) (Fin 2000)))"
    by (rule presentBut_orDefault) (simp add: finiteNonNegative_def)
  have 4: "presentBut (factor options) (\<lambda>x. \<not> finitePositive x)
             = (\<not> finitePositive (orDefault (factor options) (Fin 2)))"
    by (rule presentBut_orDefault) (simp add: finitePositive_def)
  show ?thesis
    unfolding invalidConfiguration_def 1 2 3 4 ..
qed

lemma normalizeOptions_failure:
  "(\<exists>opts. normalizeOptions P options = Inr opts) \<or>
   (\<exists>e. normalizeOptions P options = Inl e \<and>
        firstFailure
          [assertValidMaxAttempts (orDefault (maxAttempts options) (Fin 3)),
           assertFiniteNonNegative ''baseMs'' (Some (orDefault (baseMs options) (Fin 200))),
           assertFiniteNonNegative ''capMs'' (Some (orDefault (capMs options) (Fin 2000))),
           assertFinitePositive ''factor'' (Some (orDefault (factor options) (Fin 2))),
           assertFiniteNonNegative ''maxElapsedMs'' (fieldValue (maxElapsedMs options))] = Some e)"
  by (simp add: normalizeOptions_def Let_def split: option.splits)

lemma normalizeOptions_Inl_iff:
  "(normalizeOptions P options = Inl e) =
     (firstFailure
          [assertValidMaxAttempts (orDefault (maxAttempts options) (Fin 3)),
           assertFiniteNonNegative ''baseMs'' (Some (orDefault (baseMs options) (Fin 200))),
           assertFiniteNonNegative ''capMs'' (Some (orDefault (capMs options) (Fin 2000))),
           assertFinitePositive ''factor'' (Some (orDefault (factor options) (Fin 2))),
           assertFiniteNonNegative ''maxElapsedMs'' (fieldValue (maxElapsedMs options))] = Some e)"
  by (simp add: normalizeOptions_def Let_def split: option.splits)

lemma normalizeOptions_invalid:
  assumes "invalidConfiguration options"
  shows "\<exists>name. normalizeOptions P options = Inl (RangeError name)"
  using assms
  unfolding normalizeOptions_Inl_iff invalidConfiguration_iff assertValidMaxAttempts_iff
    assertFiniteNonNegative_iff assertFinitePositive_iff assertFiniteNonNegative_field
  by (auto split: if_splits)

lemma normalizeOptions_valid:
  assumes "\<not> invalidConfiguration options"
  shows "\<exists>opts. normalizeOptions P options = Inr opts"
proof (cases "normalizeOptions P options")
  case (Inl e)
  then show ?thesis
    using assms
    unfolding normalizeOptions_Inl_iff invalidConfiguration_iff assertValidMaxAttempts_iff
      assertFiniteNonNegative_iff assertFinitePositive_iff assertFiniteNonNegative_field
    by (auto split: if_splits)
next
  case (Inr opts)
  then show ?thesis by blast
qed

text \<open>
  C2.  For every task, if the configuration is invalid in the sense above, \<open>retry\<close> fails
  with a range error before anything else happens: the log is empty, so the task is never
  invoked, and the world is the one \<open>retry\<close> was called in (not even the clock is read).
  Neither the task nor the platform occurs in the result.
\<close>

theorem invalid_configuration_never_runs_task:
  assumes "invalidConfiguration options"
  shows "\<exists>name. retry P task options w = (Inl (RangeError name), [], w)"
proof -
  from normalizeOptions_invalid [OF assms, of P]
  obtain name where "normalizeOptions P options = Inl (RangeError name)" by blast
  then have "retry P task options w = (Inl (RangeError name), [], w)"
    by (simp add: retry_def)
  then show ?thesis by blast
qed

theorem invalid_configuration_never_runs_task_witness:
  "invalidConfiguration (emptyOptions\<lparr>maxAttempts := Val (Fin 0)\<rparr> :: int RetryOptions) \<and>
   invalidConfiguration (emptyOptions\<lparr>baseMs := Val (Fin (- 1))\<rparr> :: int RetryOptions) \<and>
   invalidConfiguration (emptyOptions\<lparr>factor := Val (Fin 0)\<rparr> :: int RetryOptions) \<and>
   (\<exists>name. retry simPlatform (succeedsAt 1 JNull) (emptyOptions\<lparr>maxAttempts := Val (Fin 0)\<rparr>) 0
            = (Inl (RangeError name), [], 0)) \<and>
   (\<exists>name. retry simPlatform (succeedsAt 1 JNull) (emptyOptions\<lparr>baseMs := Val (Fin (- 1))\<rparr>) 0
            = (Inl (RangeError name), [], 0)) \<and>
   (\<exists>name. retry simPlatform (succeedsAt 1 JNull) (emptyOptions\<lparr>factor := Val (Fin 0)\<rparr>) 0
            = (Inl (RangeError name), [], 0))"
proof -
  have a: "invalidConfiguration (emptyOptions\<lparr>maxAttempts := Val (Fin 0)\<rparr> :: int RetryOptions)"
    by (simp add: invalidConfiguration_def presentBut_def emptyOptions_def integerAtLeast1_def)
  have b: "invalidConfiguration (emptyOptions\<lparr>baseMs := Val (Fin (- 1))\<rparr> :: int RetryOptions)"
    by (simp add: invalidConfiguration_def presentBut_def emptyOptions_def finiteNonNegative_def)
  have c: "invalidConfiguration (emptyOptions\<lparr>factor := Val (Fin 0)\<rparr> :: int RetryOptions)"
    by (simp add: invalidConfiguration_def presentBut_def emptyOptions_def finitePositive_def)
  show ?thesis
    using a b c
      invalid_configuration_never_runs_task [OF a, of simPlatform "succeedsAt 1 JNull" 0]
      invalid_configuration_never_runs_task [OF b, of simPlatform "succeedsAt 1 JNull" 0]
      invalid_configuration_never_runs_task [OF c, of simPlatform "succeedsAt 1 JNull" 0]
    by blast
qed


lemmas value_defs =
  getProp.simps coalesce_def isString_def Number_of_string_def trim_def isWhiteSpace_def
  parseNumeric_def parseUnsignedDecimal_def isDecimalDigit_def digitVal_def parseExponent_def
  scale10_def parseDigits_def


text \<open>The spread of an object with the empty object is the object.\<close>

lemma spread_emptyOptions: "spread d emptyOptions = d"
  by (cases d) (simp add: spread_def emptyOptions_def)

text \<open>
  C8.  The function made by \<open>createRetry\<close> from default options, called without overrides,
  is \<open>retry\<close> with these options: same result, same log, same final world, for every
  platform, task and starting world.  With overrides it is \<open>retry\<close> with the spread of the two
  objects, in which every option that the overrides have, whatever its value, stands alone in
  place of the default; an option the overrides lack keeps its default.
\<close>

theorem createRetry_is_retry_on_merged_options:
  "createRetry P (Some d) task None w = retry P task d w \<and>
   createRetry P (Some d) task (Some ov) w = retry P task (spread d ov) w \<and>
   maxAttempts (spread d ov) = (if maxAttempts ov = Absent then maxAttempts d else maxAttempts ov) \<and>
   baseMs (spread d ov) = (if baseMs ov = Absent then baseMs d else baseMs ov) \<and>
   capMs (spread d ov) = (if capMs ov = Absent then capMs d else capMs ov) \<and>
   factor (spread d ov) = (if factor ov = Absent then factor d else factor ov) \<and>
   jitter (spread d ov) = (if jitter ov = Absent then jitter d else jitter ov) \<and>
   rng (spread d ov) = (if rng ov = Absent then rng d else rng ov) \<and>
   signal (spread d ov) = (if signal ov = Absent then signal d else signal ov) \<and>
   maxElapsedMs (spread d ov)
     = (if maxElapsedMs ov = Absent then maxElapsedMs d else maxElapsedMs ov) \<and>
   shouldRetry (spread d ov) = (if shouldRetry ov = Absent then shouldRetry d else shouldRetry ov) \<and>
   onRetry (spread d ov) = (if onRetry ov = Absent then onRetry d else onRetry ov) \<and>
   respectRetryAfter (spread d ov)
     = (if respectRetryAfter ov = Absent then respectRetryAfter d else respectRetryAfter ov) \<and>
   retryAfterHeaderName (spread d ov)
     = (if retryAfterHeaderName ov = Absent then retryAfterHeaderName d
        else retryAfterHeaderName ov) \<and>
   retryAfterBodyUnit (spread d ov)
     = (if retryAfterBodyUnit ov = Absent then retryAfterBodyUnit d else retryAfterBodyUnit ov) \<and>
   wrapError (spread d ov) = (if wrapError ov = Absent then wrapError d else wrapError ov)"
proof -
  have f: "\<And>a b. spreadField a b = (if b = Absent then a else b)"
    subgoal for a b by (cases b) simp_all
    done
  have 1: "createRetry P (Some d) task None w = retry P task d w"
    by (simp add: createRetry_def spread_emptyOptions)
  have 2: "createRetry P (Some d) task (Some ov) w = retry P task (spread d ov) w"
    by (simp add: createRetry_def)
  show ?thesis
    unfolding 1 2 by (simp add: spread_def f)
qed


theorem createRetry_is_retry_on_merged_options_witness:
  "createRetry simPlatform
     (Some (emptyOptions\<lparr> maxAttempts := Val (Fin 3), baseMs := Val (Fin 1000),
                           rng := Val (constantDraw (1 / 2)) \<rparr>))
     (failing (JObj False [])) None 0
   = retry simPlatform (failing (JObj False []))
       (emptyOptions\<lparr> maxAttempts := Val (Fin 3), baseMs := Val (Fin 1000),
                       rng := Val (constantDraw (1 / 2)) \<rparr>) 0 \<and>
   fst (createRetry simPlatform
     (Some (emptyOptions\<lparr> maxAttempts := Val (Fin 3), baseMs := Val (Fin 1000),
                           rng := Val (constantDraw (1 / 2)) \<rparr>))
     (failing (JObj False []))
     (Some (emptyOptions\<lparr> maxAttempts := Val (Fin 1), wrapError := Val True \<rparr>)) 0)
   = Inl (RetryExhaustedError 1 0 1 (Fin 0) (JObj False []))"
  using createRetry_is_retry_on_merged_options
    [of simPlatform
        "emptyOptions\<lparr> maxAttempts := Val (Fin 3), baseMs := Val (Fin 1000),
                        rng := Val (constantDraw (1 / 2)) \<rparr>"
        "failing (JObj False [])" 0
        "emptyOptions\<lparr> maxAttempts := Val (Fin 1), wrapError := Val True \<rparr>"]
  by (simp add: engine_defs spread_def retry_loop.simps)

section \<open>The shape of one pass\<close>

text \<open>The ways through the \<^verbatim>\<open>catch\<close> block, one case for each exit.\<close>

lemma retry_catch_cases
  [consumes 1, case_names rethrow exhausted aborted declined budget slept]:
  fixes st :: "('w, 'a) step"
  assumes st: "st = retry_catch P opts s a ctx err w"
  obtains
    (rethrow) "isAbortLikeError err" "st = Done (Inl (Thrown err)) [] w"
  | (exhausted) t w1 where
      "\<not> isAbortLikeError err" "Date_now P w = (t, w1)" "n_maxAttempts opts \<le> a"
      "st = Done (Inl (giveUp opts a (toIntMs (js_sub t s)) s err)) [] w1"
  | (aborted) t w1 where
      "\<not> isAbortLikeError err" "Date_now P w = (t, w1)" "a < n_maxAttempts opts"
      "signalAborted (n_signal opts) w1" "st = Done (Inl AbortError) [] w1"
  | (declined) t w1 w2 where
      "\<not> isAbortLikeError err" "Date_now P w = (t, w1)" "a < n_maxAttempts opts"
      "\<not> signalAborted (n_signal opts) w1"
      "n_shouldRetry opts err (ctx\<lparr>ctx_elapsedMs := toIntMs (js_sub t s)\<rparr>) w1 = (False, w2)"
      "st = Done (Inl (giveUp opts a (toIntMs (js_sub t s)) s err))
              [Classify err (ctx\<lparr>ctx_elapsedMs := toIntMs (js_sub t s)\<rparr>) False] w2"
  | (budget) t w1 w2 why d w3 m where
      "\<not> isAbortLikeError err" "Date_now P w = (t, w1)" "a < n_maxAttempts opts"
      "\<not> signalAborted (n_signal opts) w1"
      "n_shouldRetry opts err (ctx\<lparr>ctx_elapsedMs := toIntMs (js_sub t s)\<rparr>) w1 = (True, w2)"
      "planDelay P opts err a w2 = ((why, d), w3)"
      "overBudget (n_maxElapsedMs opts) (toIntMs (js_sub t s) + d) = Some m"
      "st = Done (Inl (RetryTimeoutError a (toIntMs (js_sub t s)) m (Some err)))
              [Classify err (ctx\<lparr>ctx_elapsedMs := toIntMs (js_sub t s)\<rparr>) True] w3"
  | (slept) t w1 w2 why d w3 told w4 res w5 where
      "\<not> isAbortLikeError err" "Date_now P w = (t, w1)" "a < n_maxAttempts opts"
      "\<not> signalAborted (n_signal opts) w1"
      "n_shouldRetry opts err (ctx\<lparr>ctx_elapsedMs := toIntMs (js_sub t s)\<rparr>) w1 = (True, w2)"
      "planDelay P opts err a w2 = ((why, d), w3)"
      "overBudget (n_maxElapsedMs opts) (toIntMs (js_sub t s) + d) = None"
      "(told, w4) =
         (case n_onRetry opts of
            None \<Rightarrow> ([], w3)
          | Some hook \<Rightarrow>
              ([Notify \<lparr> ev_error = err, ev_reason = why, ev_delayMs = d,
                         ev_nextAttempt = a + 1,
                         ev_ctx = ctx\<lparr>ctx_elapsedMs := toIntMs (js_sub t s)\<rparr> \<rparr>],
               hook \<lparr> ev_error = err, ev_reason = why, ev_delayMs = d,
                      ev_nextAttempt = a + 1,
                      ev_ctx = ctx\<lparr>ctx_elapsedMs := toIntMs (js_sub t s)\<rparr> \<rparr> w3))"
      "sleep P (num d) (n_signal opts) w4 = (res, w5)"
      "st = (case res of
               Some f \<Rightarrow>
                 Done (Inl f)
                   (Classify err (ctx\<lparr>ctx_elapsedMs := toIntMs (js_sub t s)\<rparr>) True
                      # told @ [Sleep d]) w5
             | None \<Rightarrow>
                 Again
                   (Classify err (ctx\<lparr>ctx_elapsedMs := toIntMs (js_sub t s)\<rparr>) True
                      # told @ [Sleep d]) w5)"
proof (cases "isAbortLikeError err")
  case True
  then show ?thesis using st rethrow by (simp add: retry_catch_def)
next
  case na: False
  obtain t w1 where clock: "Date_now P w = (t, w1)" by (cases "Date_now P w") auto
  let ?e = "toIntMs (js_sub t s)"
  let ?ctx = "ctx\<lparr>ctx_elapsedMs := ?e\<rparr>"
  show ?thesis
  proof (cases "n_maxAttempts opts \<le> a")
    case True
    then show ?thesis using st na clock exhausted by (simp add: retry_catch_def)
  next
    case False
    then have lt: "a < n_maxAttempts opts" by simp
    show ?thesis
    proof (cases "signalAborted (n_signal opts) w1")
      case True
      then show ?thesis using st na clock lt aborted by (simp add: retry_catch_def)
    next
      case nab: False
      obtain retriable w2 where cl: "n_shouldRetry opts err ?ctx w1 = (retriable, w2)"
        by (cases "n_shouldRetry opts err ?ctx w1") auto
      show ?thesis
      proof (cases retriable)
        case False
        then show ?thesis
          using st na clock lt nab cl declined [of t w1 w2]
          by (simp add: retry_catch_def Let_def)
      next
        case True
        obtain why d w3 where pl: "planDelay P opts err a w2 = ((why, d), w3)"
          by (cases "planDelay P opts err a w2") auto
        show ?thesis
        proof (cases "overBudget (n_maxElapsedMs opts) (?e + d)")
          case (Some m)
          then show ?thesis
            using st na clock lt nab cl True pl budget [of t w1 w2 why d w3 m]
            by (simp add: retry_catch_def Let_def)
        next
          case None
          let ?ev = "\<lparr> ev_error = err, ev_reason = why, ev_delayMs = d,
                         ev_nextAttempt = a + 1, ev_ctx = ?ctx \<rparr>"
          show ?thesis
          proof (cases "n_onRetry opts")
            case nh: None
            obtain res w5 where sl: "sleep P (num d) (n_signal opts) w3 = (res, w5)"
              by (cases "sleep P (num d) (n_signal opts) w3") auto
            have "st = (case res of
                 Some f \<Rightarrow> Done (Inl f) (Classify err ?ctx True # [] @ [Sleep d]) w5
               | None \<Rightarrow> Again (Classify err ?ctx True # [] @ [Sleep d]) w5)"
              using st na clock lt nab cl True pl None sl nh
              by (simp add: retry_catch_def Let_def split: option.splits)
            then show ?thesis
              using na clock lt nab cl True pl None sl nh
                slept [of t w1 w2 why d w3 "[]" w3 res w5]
              by simp
          next
            case sh: (Some hook)
            obtain res w5 where sl: "sleep P (num d) (n_signal opts) (hook ?ev w3) = (res, w5)"
              by (cases "sleep P (num d) (n_signal opts) (hook ?ev w3)") auto
            have "st = (case res of
                 Some f \<Rightarrow> Done (Inl f) (Classify err ?ctx True # [Notify ?ev] @ [Sleep d]) w5
               | None \<Rightarrow> Again (Classify err ?ctx True # [Notify ?ev] @ [Sleep d]) w5)"
              using st na clock lt nab cl True pl None sl sh
              by (simp add: retry_catch_def Let_def split: option.splits)
            then show ?thesis
              using na clock lt nab cl True pl None sl sh
                slept [of t w1 w2 why d w3 "[Notify ?ev]" "hook ?ev w3" res w5]
              by simp
          qed
        qed
      qed
    qed
  qed
qed


text \<open>The ways through the body of the loop.\<close>

lemma retry_body_cases [consumes 1, case_names aborted budget ok failed]:
  fixes st :: "('w, 'a) step"
  assumes st: "st = retry_body P task opts s a w"
  obtains
    (aborted) "signalAborted (n_signal opts) w" "st = Done (Inl AbortError) [] w"
  | (budget) t0 w1 m where
      "\<not> signalAborted (n_signal opts) w" "Date_now P w = (t0, w1)"
      "overBudget (n_maxElapsedMs opts) (toIntMs (js_sub t0 s)) = Some m"
      "st = Done (Inl (RetryTimeoutError a (toIntMs (js_sub t0 s)) m None)) [] w1"
  | (ok) t0 w1 t1 w2 ctx v w3 where
      "\<not> signalAborted (n_signal opts) w" "Date_now P w = (t0, w1)"
      "overBudget (n_maxElapsedMs opts) (toIntMs (js_sub t0 s)) = None"
      "Date_now P w1 = (t1, w2)"
      "ctx = \<lparr> ctx_attempt = Suc a, ctx_maxAttempts = n_maxAttempts opts, ctx_startedAt = s,
               ctx_elapsedMs = toIntMs (js_sub t1 s), ctx_signal = n_signal opts \<rparr>"
      "task ctx w2 = (Inr v, w3)"
      "st = Done (Inr v) [Invoke ctx None] w3"
  | (failed) t0 w1 t1 w2 ctx err w3 where
      "\<not> signalAborted (n_signal opts) w" "Date_now P w = (t0, w1)"
      "overBudget (n_maxElapsedMs opts) (toIntMs (js_sub t0 s)) = None"
      "Date_now P w1 = (t1, w2)"
      "ctx = \<lparr> ctx_attempt = Suc a, ctx_maxAttempts = n_maxAttempts opts, ctx_startedAt = s,
               ctx_elapsedMs = toIntMs (js_sub t1 s), ctx_signal = n_signal opts \<rparr>"
      "task ctx w2 = (Inl err, w3)"
      "st = logged [Invoke ctx (Some err)] (retry_catch P opts s (Suc a) ctx err w3)"
proof (cases "signalAborted (n_signal opts) w")
  case True
  then show ?thesis using st aborted by (simp add: retry_body_def)
next
  case na: False
  obtain t0 w1 where c0: "Date_now P w = (t0, w1)" by (cases "Date_now P w") auto
  show ?thesis
  proof (cases "overBudget (n_maxElapsedMs opts) (toIntMs (js_sub t0 s))")
    case (Some m)
    then show ?thesis using st na c0 budget [of t0 w1 m] by (simp add: retry_body_def Let_def)
  next
    case None
    obtain t1 w2 where c1: "Date_now P w1 = (t1, w2)" by (cases "Date_now P w1") auto
    let ?ctx = "\<lparr> ctx_attempt = Suc a, ctx_maxAttempts = n_maxAttempts opts, ctx_startedAt = s,
               ctx_elapsedMs = toIntMs (js_sub t1 s), ctx_signal = n_signal opts \<rparr>"
    obtain res w3 where t: "task ?ctx w2 = (res, w3)" by (cases "task ?ctx w2") auto
    show ?thesis
    proof (cases res)
      case (Inr v)
      then show ?thesis
        using st na c0 None c1 t ok [of t0 w1 t1 w2 ?ctx v w3]
        by (simp add: retry_body_def Let_def)
    next
      case (Inl err)
      then show ?thesis
        using st na c0 None c1 t failed [of t0 w1 t1 w2 ?ctx err w3]
        by (simp add: retry_body_def Let_def)
    qed
  qed
qed

section \<open>From one pass to the whole loop\<close>

lemma retry_loop_Done:
  "retry_body P task opts s a w = Done r acts w1 \<Longrightarrow> retry_loop P task opts s a w = (r, acts, w1)"
  by (subst retry_loop.simps) simp

lemma retry_loop_Again:
  "retry_body P task opts s a w = Again acts w1 \<Longrightarrow>
   retry_loop P task opts s (Suc a) w1 = (r, acts', w2) \<Longrightarrow>
   retry_loop P task opts s a w = (r, acts @ acts', w2)"
  by (subst retry_loop.simps) simp

text \<open>
  Induction along the run of the loop: a property of the result holds if it holds when the
  body settles, and carries over from the rest of the run when the body goes round again.
\<close>

lemma retry_loop_run_induct [consumes 1, case_names Done Again]:
  assumes run: "retry_loop P task opts s a w = (r, acts, w')"
    and settled: "\<And>a w r acts w1.
        retry_body P task opts s a w = Done r acts w1 \<Longrightarrow> Q a w r acts w1"
    and again: "\<And>a w acts w1 r acts' w2.
        retry_body P task opts s a w = Again acts w1 \<Longrightarrow>
        Suc a < n_maxAttempts opts \<Longrightarrow>
        retry_loop P task opts s (Suc a) w1 = (r, acts', w2) \<Longrightarrow>
        Q (Suc a) w1 r acts' w2 \<Longrightarrow> Q a w r (acts @ acts') w2"
  shows "Q a w r acts w'"
  using run
proof (induction "n_maxAttempts opts - a" arbitrary: a w r acts w' rule: less_induct)
  case less
  show ?case
  proof (cases "retry_body P task opts s a w")
    case (Done r0 acts0 w1)
    from retry_loop_Done [OF Done] less.prems have "r0 = r" "acts0 = acts" "w1 = w'"
      by simp_all
    with settled [OF Done] show ?thesis by simp
  next
    case (Again acts0 w1)
    have lt: "Suc a < n_maxAttempts opts" using Again by (rule retry_body_Again)
    obtain r1 acts1 w2 where rest: "retry_loop P task opts s (Suc a) w1 = (r1, acts1, w2)"
      by (cases "retry_loop P task opts s (Suc a) w1") auto
    from retry_loop_Again [OF Again rest] less.prems
    have e: "r1 = r" "acts = acts0 @ acts1" "w2 = w'" by simp_all
    have "n_maxAttempts opts - Suc a < n_maxAttempts opts - a" using lt by simp
    then have "Q (Suc a) w1 r1 acts1 w2" using rest by (rule less.hyps)
    from again [OF Again lt rest this] show ?thesis using e by simp
  qed
qed

lemma retry_cases [consumes 1, case_names invalid run]:
  assumes "retry P task options w = (r, acts, w')"
  obtains
    (invalid) e where "normalizeOptions P options = Inl e" "r = Inl e" "acts = []" "w' = w"
  | (run) opts s w1 where "normalizeOptions P options = Inr opts" "Date_now P w = (s, w1)"
      "retry_loop P task opts s 0 w1 = (r, acts, w')"
proof (cases "normalizeOptions P options")
  case (Inl e)
  then show ?thesis using assms invalid by (simp add: retry_def)
next
  case (Inr opts)
  obtain s w1 where "Date_now P w = (s, w1)" by (cases "Date_now P w") auto
  then show ?thesis using assms Inr run by (simp add: retry_def)
qed

section \<open>Cancellation-like errors\<close>

lemma retry_body_abortlike:
  fixes st :: "('w, 'a) step"
  assumes st: "st = retry_body P task opts s a w"
  shows "(\<forall>ctx err. Invoke ctx (Some err) \<in> set (stepLog st) \<longrightarrow> isAbortLikeError err \<longrightarrow>
            (\<exists>w3. st = Done (Inl (Thrown err)) [Invoke ctx (Some err)] w3)) \<and>
         (\<forall>e c b. Classify e c b \<in> set (stepLog st) \<longrightarrow> \<not> isAbortLikeError e)"
  using st
proof (cases rule: retry_body_cases)
  case (failed t0 w1 t1 w2 ctx err w3)
  define cst :: "('w, 'a) step" where "cst = retry_catch P opts s (Suc a) ctx err w3"
  have stl: "st = logged [Invoke ctx (Some err)] cst" using failed(7) cst_def by simp
  from cst_def show ?thesis
  proof (cases rule: retry_catch_cases)
    case (slept t w1 w2 why d w3 told w4 res w5)
    have "told = [] \<or> (\<exists>ev. told = [Notify ev])"
      using slept(8) by (cases "n_onRetry opts") auto
    then show ?thesis using slept(1,10) stl by (cases res) auto
  qed (auto simp: stl)
qed auto


lemma retry_loop_abortlike:
  assumes "retry_loop P task opts s a w = (r, acts, w')"
  shows "(\<forall>ctx err. Invoke ctx (Some err) \<in> set acts \<longrightarrow> isAbortLikeError err \<longrightarrow>
            r = Inl (Thrown err) \<and> last acts = Invoke ctx (Some err)) \<and>
         (\<forall>e c b. Classify e c b \<in> set acts \<longrightarrow> \<not> isAbortLikeError e)"
  using assms
proof (induction rule: retry_loop_run_induct)
  case (Done a w r acts w1)
  from retry_body_abortlike [of "Done r acts w1" P task opts s a w] Done
  show ?case by fastforce
next
  case (Again a w acts w1 r acts' w2)
  from retry_body_abortlike [of "Again acts w1" P task opts s a w] Again(1)
  have none: "\<forall>ctx err. Invoke ctx (Some err) \<in> set acts \<longrightarrow> \<not> isAbortLikeError err"
    and cl: "\<forall>e c b. Classify e c b \<in> set acts \<longrightarrow> \<not> isAbortLikeError e"
    by fastforce+
  show ?case
  proof (intro conjI allI impI)
    fix ctx err
    assume m: "Invoke ctx (Some err) \<in> set (acts @ acts')" and ab: "isAbortLikeError err"
    with none have m': "Invoke ctx (Some err) \<in> set acts'" by auto
    then have ne: "acts' \<noteq> []" by auto
    from Again(4) m' ab have "r = Inl (Thrown err)" "last acts' = Invoke ctx (Some err)"
      by blast+
    then show "r = Inl (Thrown err)" "last (acts @ acts') = Invoke ctx (Some err)"
      using ne by simp_all
  next
    fix e c b
    assume "Classify e c b \<in> set (acts @ acts')"
    then have "Classify e c b \<in> set acts \<or> Classify e c b \<in> set acts'" by simp
    then show "\<not> isAbortLikeError e" using cl Again(4) by blast
  qed
qed

text \<open>
  C6.  In every run of \<open>retry\<close>, whatever the options (\<^verbatim>\<open>wrapError\<close> included): if an
  invocation of the task threw a cancellation-like value, then \<open>retry\<close> rejects with that
  very value, not wrapped and not replaced by an exhaustion, timeout or abort error of the
  engine; that invocation is the last thing the loop did; and the classifier was never called
  on a cancellation-like value.
\<close>

theorem abort_like_error_rethrown_unchanged:
  assumes "retry P task options w = (r, acts, w')"
    and "Invoke ctx (Some err) \<in> set acts"
    and "isAbortLikeError err"
  shows "r = Inl (Thrown err) \<and> last acts = Invoke ctx (Some err) \<and>
         (\<forall>e c b. Classify e c b \<in> set acts \<longrightarrow> \<not> isAbortLikeError e)"
  using assms(1)
proof (cases rule: retry_cases)
  case (invalid e)
  then show ?thesis using assms(2) by simp
next
  case (run opts s w1)
  from retry_loop_abortlike [OF run(3)] assms(2,3) show ?thesis by blast
qed

theorem abort_like_error_rethrown_unchanged_witness:
  "isAbortLikeError (JObj False [(''code'', JStr ''ABORT_ERR'')]) \<and>
   fst (retry simPlatform (failing (JObj False [(''code'', JStr ''ABORT_ERR'')]))
          (emptyOptions\<lparr>wrapError := Val True\<rparr>) 0)
     = Inl (Thrown (JObj False [(''code'', JStr ''ABORT_ERR'')]))"
proof -
  let ?e = "JObj False [(''code'', JStr ''ABORT_ERR'')]"
  let ?ctx = "\<lparr> ctx_attempt = 1, ctx_maxAttempts = 3, ctx_startedAt = Fin 0,
                 ctx_elapsedMs = 0, ctx_signal = None \<rparr> :: int RetryContext"
  have ab: "isAbortLikeError ?e" by (simp add: isAbortLikeError_def isString_def)
  obtain r w' where run:
    "retry simPlatform (failing ?e) (emptyOptions\<lparr>wrapError := Val True\<rparr>) 0
       = (r, [Invoke ?ctx (Some ?e)], w')"
    by (simp add: engine_defs retry_loop.simps)
  have "r = Inl (Thrown ?e)"
    using abort_like_error_rethrown_unchanged [OF run _ ab, of ?ctx] by simp
  then show ?thesis using ab run by simp
qed

section \<open>Events\<close>

lemma sleep_failure: "sleep P ms sig w = (Some f, w') \<Longrightarrow> f = AbortError"
  by (auto simp: sleep_def Let_def split: if_splits option.splits prod.splits)

text \<open>What one pass through the body tells about an event it hands to the hook.\<close>

lemma retry_body_notified:
  fixes st :: "('w, 'a) step"
  assumes st: "st = retry_body P task opts s a w" and ev: "Notify ev \<in> set (stepLog st)"
  shows "(\<exists>w2 w3. planDelay P opts (ev_error ev) (Suc a) w2 = ((ev_reason ev, ev_delayMs ev), w3)) \<and>
         ctx_attempt (ev_ctx ev) = Suc a \<and> ev_nextAttempt ev = Suc (Suc a) \<and>
         Suc a < n_maxAttempts opts \<and> \<not> isAbortLikeError (ev_error ev) \<and>
         overBudget (n_maxElapsedMs opts) (ctx_elapsedMs (ev_ctx ev) + ev_delayMs ev) = None \<and>
         Classify (ev_error ev) (ev_ctx ev) True \<in> set (stepLog st)"
  using st
proof (cases rule: retry_body_cases)
  case (failed t0 w1 t1 w2 ctx err w3)
  define cst :: "('w, 'a) step" where "cst = retry_catch P opts s (Suc a) ctx err w3"
  have stl: "stepLog st = Invoke ctx (Some err) # stepLog cst"
    using failed(7) cst_def by (simp add: stepLog_logged)
  from cst_def show ?thesis
  proof (cases rule: retry_catch_cases)
    case (slept t w1' w2' why d w3' told w4 res w5)
    let ?ctx = "ctx\<lparr>ctx_elapsedMs := toIntMs (js_sub t s)\<rparr>"
    let ?ev = "\<lparr> ev_error = err, ev_reason = why, ev_delayMs = d, ev_nextAttempt = Suc a + 1,
                  ev_ctx = ?ctx \<rparr>"
    have lg: "stepLog cst = Classify err ?ctx True # told @ [Sleep d]"
      using slept(10) by (cases res) simp_all
    have "told = [] \<or> told = [Notify ?ev]"
      using slept(8) by (cases "n_onRetry opts") auto
    with ev stl lg have e: "ev = ?ev" by auto
    show ?thesis
      using slept(1,3,6,7) failed(5) stl lg by (auto simp: e)
  qed (use ev stl in auto)
qed (use ev in auto)

lemma retry_loop_notified:
  assumes "retry_loop P task opts s a w = (r, acts, w')" and "Notify ev \<in> set acts"
  shows "(\<exists>w2 w3. planDelay P opts (ev_error ev) (ctx_attempt (ev_ctx ev)) w2
                    = ((ev_reason ev, ev_delayMs ev), w3)) \<and>
         a < ctx_attempt (ev_ctx ev) \<and>
         ev_nextAttempt ev = Suc (ctx_attempt (ev_ctx ev)) \<and>
         ev_nextAttempt ev \<le> n_maxAttempts opts \<and> \<not> isAbortLikeError (ev_error ev) \<and>
         overBudget (n_maxElapsedMs opts) (ctx_elapsedMs (ev_ctx ev) + ev_delayMs ev) = None \<and>
         Classify (ev_error ev) (ev_ctx ev) True \<in> set acts"
  using assms
proof (induction rule: retry_loop_run_induct)
  case (Done a w r acts w1)
  from retry_body_notified [of "Done r acts w1" P task opts s a w ev] Done
  show ?case by auto
next
  case (Again a w acts w1 r acts' w2)
  from Again(5) have "Notify ev \<in> set acts \<or> Notify ev \<in> set acts'" by simp
  then show ?case
  proof
    assume "Notify ev \<in> set acts"
    with retry_body_notified [of "Again acts w1" P task opts s a w ev] Again(1)
    show ?thesis by auto
  next
    assume "Notify ev \<in> set acts'"
    with Again(4) show ?thesis by auto
  qed
qed

section \<open>Delays\<close>

lemma trunc_of_int: "trunc (of_int i) = i"
  by (simp add: trunc_def)

lemma max_trunc: "max 0 (trunc x) = max 0 \<lfloor>x\<rfloor>"
proof (cases "0 \<le> x")
  case True
  then show ?thesis by (simp add: trunc_def)
next
  case False
  then have x: "x \<le> 0" by simp
  have c: "\<lceil>x\<rceil> \<le> 0" using x by linarith
  have f: "\<lfloor>x\<rfloor> \<le> 0" using x by linarith
  have "trunc x = \<lceil>x\<rceil>" using False by (simp only: trunc_def if_False)
  moreover have "max 0 \<lceil>x\<rceil> = 0" using c by (rule max_absorb1)
  moreover have "max 0 \<lfloor>x\<rfloor> = 0" using f by (rule max_absorb1)
  ultimately show ?thesis by (simp only:)
qed

lemma toIntMs_Fin: "toIntMs (Fin x) = max 0 \<lfloor>x\<rfloor>"
  by (simp add: toIntMs_def max_trunc)

lemma toIntMs_num: "toIntMs (num i) = max 0 i"
  by (simp add: toIntMs_def num_def trunc_of_int)

lemma toIntMs_nonneg: "0 \<le> toIntMs x"
  by (cases x) (simp_all add: toIntMs_def)

lemma toIntMs_idem: "toIntMs (num (toIntMs x)) = toIntMs x"
  using toIntMs_nonneg [of x] by (simp add: toIntMs_num)

lemma planDelay_hint:
  "retryAfterHint P opts err w = (Some d, w1) \<Longrightarrow>
   planDelay P opts err a w = ((RetryAfter, toIntMs (num d)), w1)"
  by (simp add: planDelay_def)

lemma parseRetryAfterHeaderMs_number:
  "Number_of_string (trim h) = Fin n \<Longrightarrow>
   parseRetryAfterHeaderMs P h w = (Some (toIntMs (Fin (n * 1000))), w)"
  by (simp add: parseRetryAfterHeaderMs_def Let_def)

lemma retryAfterHint_header:
  assumes "n_respectRetryAfter opts" and "getStatus err = Some 429"
    and "getHeader (getProp (getProp err ''response'') ''headers'') (n_retryAfterHeaderName opts)
           = Some h"
    and "Number_of_string (trim h) = Fin n"
  shows "retryAfterHint P opts err w = (Some (toIntMs (Fin (n * 1000))), w)"
  using assms by (simp add: retryAfterHint_def Let_def parseRetryAfterHeaderMs_number)

lemma planDelay_header:
  assumes "n_respectRetryAfter opts" and "getStatus err = Some 429"
    and "getHeader (getProp (getProp err ''response'') ''headers'') (n_retryAfterHeaderName opts)
           = Some h"
    and "Number_of_string (trim h) = Fin n"
  shows "planDelay P opts err a w = ((RetryAfter, max 0 \<lfloor>n * 1000\<rfloor>), w)"
  using planDelay_hint [OF retryAfterHint_header [OF assms, of P w], of a]
  by (simp add: toIntMs_num toIntMs_Fin)

lemma dropWhile_whitespace: "\<forall>c \<in> set h. isWhiteSpace c \<Longrightarrow> dropWhile isWhiteSpace h = []"
  by (induction h) simp_all

lemma trim_whitespace: "\<forall>c \<in> set h. isWhiteSpace c \<Longrightarrow> trim h = []"
  by (simp add: trim_def dropWhile_whitespace)

lemma Number_of_string_blank: "\<forall>c \<in> set h. isWhiteSpace c \<Longrightarrow> Number_of_string (trim h) = Fin 0"
proof -
  assume "\<forall>c \<in> set h. isWhiteSpace c"
  then have "trim h = []" by (rule trim_whitespace)
  moreover have "trim [] = []" by (simp add: trim_def)
  ultimately show ?thesis by (simp add: Number_of_string_def)
qed

text \<open>The plain-object branch of \<open>getHeader\<close> compares names without regard to case.\<close>

lemma getHeader_case_insensitive:
  "toLowerCase k = toLowerCase name \<Longrightarrow> getHeader (JObj te [(k, JStr h)]) name = Some h"
  by (simp add: getHeader_def)

lemma notified_mem: "ev \<in> set (notified acts) \<Longrightarrow> Notify ev \<in> set acts"
  by (induction acts rule: notified.induct) auto

lemma retry_notified_plan:
  assumes "normalizeOptions P options = Inr opts"
    and "retry P task options w = (r, acts, w')"
    and "Notify ev \<in> set acts"
  shows "\<exists>w2 w3. planDelay P opts (ev_error ev) (ctx_attempt (ev_ctx ev)) w2
                   = ((ev_reason ev, ev_delayMs ev), w3)"
  using assms(2)
proof (cases rule: retry_cases)
  case (invalid e)
  then show ?thesis using assms(3) by simp
next
  case (run opts' s w1)
  with assms(1) have "opts' = opts" by simp
  with retry_loop_notified [OF run(3) assms(3)] show ?thesis by blast
qed




text \<open>
  C10.  With \<^verbatim>\<open>respectRetryAfter\<close> enabled, an event for an error whose status is 429 and whose
  configured header holds a string made of white space only, the empty string included, has
  the reason \<^verbatim>\<open>retry-after\<close> and the delay 0: the string converts to the number 0, which is
  finite, so the header is used and the backoff is not computed.
\<close>

theorem blank_retry_after_header_gives_zero_delay:
  assumes "normalizeOptions P options = Inr opts"
    and "retry P task options w = (r, acts, w')"
    and "Notify ev \<in> set acts"
    and "n_respectRetryAfter opts"
    and "getStatus (ev_error ev) = Some 429"
    and "getHeader (getProp (getProp (ev_error ev) ''response'') ''headers'')
           (n_retryAfterHeaderName opts) = Some h"
    and "\<forall>c \<in> set h. isWhiteSpace c"
  shows "Number_of_string (trim h) = Fin 0 \<and> ev_reason ev = RetryAfter \<and> ev_delayMs ev = 0"
proof -
  have z: "Number_of_string (trim h) = Fin 0"
    using assms(7) by (rule Number_of_string_blank)
  from retry_notified_plan [OF assms(1,2,3)] obtain w2 w3 where
    "planDelay P opts (ev_error ev) (ctx_attempt (ev_ctx ev)) w2
       = ((ev_reason ev, ev_delayMs ev), w3)" by blast
  with planDelay_header [OF assms(4,5,6) z, of P "ctx_attempt (ev_ctx ev)" w2]
  show ?thesis using z by simp
qed

theorem blank_retry_after_header_gives_zero_delay_witness:
  "map ev_reason (notified (fst (snd (retry simPlatform
     (failing (JObj False [(''status'', JNum (Fin 429)),
        (''response'', JObj False [(''headers'', JObj False [(''retry-after'', JStr ''  '')])])]))
     (emptyOptions\<lparr>maxAttempts := Val (Fin 2), baseMs := Val (Fin 1000), jitter := Val NoJitter,
                    onRetry := Val quietHook\<rparr>) 0)))) = [RetryAfter] \<and>
   map ev_delayMs (notified (fst (snd (retry simPlatform
     (failing (JObj False [(''status'', JNum (Fin 429)),
        (''response'', JObj False [(''headers'', JObj False [(''retry-after'', JStr ''  '')])])]))
     (emptyOptions\<lparr>maxAttempts := Val (Fin 2), baseMs := Val (Fin 1000), jitter := Val NoJitter,
                    onRetry := Val quietHook\<rparr>) 0)))) = [0]"
proof -
  let ?e = "JObj False [(''status'', JNum (Fin 429)),
        (''response'', JObj False [(''headers'', JObj False [(''retry-after'', JStr ''  '')])])]"
  let ?o = "emptyOptions\<lparr>maxAttempts := Val (Fin 2), baseMs := Val (Fin 1000),
                          jitter := Val NoJitter, onRetry := Val quietHook\<rparr> :: int RetryOptions"
  obtain r acts w' where run: "retry simPlatform (failing ?e) ?o 0 = (r, acts, w')"
    by (cases "retry simPlatform (failing ?e) ?o 0") auto
  obtain opts where n: "normalizeOptions simPlatform ?o = Inr opts"
    and ra: "n_respectRetryAfter opts" and nm: "n_retryAfterHeaderName opts = ''retry-after''"
    by (simp add: engine_defs)
  have lc: "toLowerCase ''retry-after'' = ''retry-after''"
    by code_simp
  have "\<exists>ev. notified acts = [ev] \<and> ev_error ev = ?e"
    using run by (auto simp: engine_defs retry_loop.simps value_defs getHeader_def
        parseRetryAfterHeaderMs_def lc)
  then obtain ev where l: "notified acts = [ev]" and e: "ev_error ev = ?e" by blast
  have mem: "Notify ev \<in> set acts" using l by (intro notified_mem) simp
  have st: "getStatus (ev_error ev) = Some 429"
    by (simp add: e getStatus_def value_defs)
  have hd: "getHeader (getProp (getProp (ev_error ev) ''response'') ''headers'')
           (n_retryAfterHeaderName opts) = Some ''  ''"
    by (simp add: e nm getHeader_def lc)
  have ws: "\<forall>c \<in> set ''  ''. isWhiteSpace c"
    by (simp add: isWhiteSpace_def)
  from blank_retry_after_header_gives_zero_delay [OF n run mem ra st hd ws]
  show ?thesis using run l by simp
qed

section \<open>Backoff\<close>









text \<open>The floor of a quotient of numerals, for evaluating examples.\<close>

lemma floor_rat_numeral: "\<lfloor>numeral a / numeral b :: rat\<rfloor> = numeral a div numeral b"
  using floor_divide_of_int_eq [of "numeral a" "numeral b", where ?'a = rat] by simp






section \<open>The discipline of the hook\<close>














section \<open>The time budget\<close>

lemma overBudget_Some: "overBudget budget x = Some m \<longleftrightarrow> budget = Some m \<and> js_gt (num x) m"
  by (cases budget) (auto simp: overBudget_def)

lemma giveUp_not_timeout: "giveUp opts a e s err \<noteq> RetryTimeoutError k e' m c"
  by (simp add: giveUp_def)

text \<open>A pass that ends in a timeout error ended at one of the two checks of the budget.\<close>

lemma retry_body_timeout:
  fixes st :: "('w, 'a) step"
  assumes st: "st = retry_body P task opts s a w"
    and d: "st = Done (Inl (RetryTimeoutError k e m cause)) acts w1"
  shows "n_maxElapsedMs opts = Some m \<and>
         ((cause = None \<and> k = a \<and> acts = [] \<and> js_gt (num e) m) \<or>
          (\<exists>err ctx c dl. cause = Some err \<and> k = Suc a \<and>
              acts = [Invoke ctx (Some err), Classify err c True] \<and> js_gt (num (e + dl)) m))"
  using st
proof (cases rule: retry_body_cases)
  case aborted
  then show ?thesis using d by simp
next
  case (budget t0 w1 m)
  then show ?thesis using d by (auto simp: overBudget_Some)
next
  case (ok t0 w1 t1 w2 ctx v w3)
  then show ?thesis using d by simp
next
  case (failed t0 w1' t1 w2 ctx err w3)
  define cst :: "('w, 'a) step" where "cst = retry_catch P opts s (Suc a) ctx err w3"
  have stl: "st = logged [Invoke ctx (Some err)] cst" using failed(7) cst_def by simp
  from cst_def show ?thesis
  proof (cases rule: retry_catch_cases)
    case (budget t w1'' w2' why dl w3' m')
    then show ?thesis using stl d by (auto simp: overBudget_Some)
  next
    case (slept t w1'' w2' why dl w3' told w4 res w5)
    show ?thesis
    proof (cases res)
      case None
      then show ?thesis using slept(10) stl d by simp
    next
      case (Some f)
      with slept(9) have "f = AbortError" by (auto dest: sleep_failure)
      then show ?thesis using Some slept(10) stl d by auto
    qed
  qed (use stl d in \<open>auto simp: giveUp_not_timeout giveUp_not_timeout [symmetric]\<close>)
qed

lemma retry_body_Again_last:
  fixes st :: "('w, 'a) step"
  assumes st: "st = retry_body P task opts s a w" and ag: "st = Again acts w1"
  shows "\<exists>dl. acts \<noteq> [] \<and> last acts = Sleep dl"
  using st
proof (cases rule: retry_body_cases)
  case (failed t0 w1' t1 w2 ctx err w3)
  define cst :: "('w, 'a) step" where "cst = retry_catch P opts s (Suc a) ctx err w3"
  have stl: "st = logged [Invoke ctx (Some err)] cst" using failed(7) cst_def by simp
  from cst_def show ?thesis
  proof (cases rule: retry_catch_cases)
    case (slept t w1'' w2' why dl w3' told w4 res w5)
    then show ?thesis using stl ag by (cases res) auto
  qed (use stl ag in auto)
qed (use ag in auto)

lemma retry_loop_timeout:
  assumes "retry_loop P task opts s a w = (r, acts, w')"
  shows "\<forall>k e m cause. r = Inl (RetryTimeoutError k e m cause) \<longrightarrow>
           n_maxElapsedMs opts = Some m \<and> k = a + length (invocations acts) \<and>
           (cause = None \<longrightarrow> js_gt (num e) m \<and> (acts = [] \<or> (\<exists>dl. last acts = Sleep dl))) \<and>
           (\<forall>err. cause = Some err \<longrightarrow>
              (\<exists>ctx c dl. acts \<noteq> [] \<and> last acts = Classify err c True \<and>
                  Invoke ctx (Some err) \<in> set acts \<and> js_gt (num (e + dl)) m))"
  using assms
proof (induction rule: retry_loop_run_induct)
  case (Done a w r acts w1)
  show ?case
  proof (intro allI impI)
    fix k e m cause
    assume "r = Inl (RetryTimeoutError k e m cause)"
    with retry_body_timeout [OF refl, of P task opts s a w k e m cause acts w1] Done
    show "n_maxElapsedMs opts = Some m \<and> k = a + length (invocations acts) \<and>
           (cause = None \<longrightarrow> js_gt (num e) m \<and> (acts = [] \<or> (\<exists>dl. last acts = Sleep dl))) \<and>
           (\<forall>err. cause = Some err \<longrightarrow>
              (\<exists>ctx c dl. acts \<noteq> [] \<and> last acts = Classify err c True \<and>
                  Invoke ctx (Some err) \<in> set acts \<and> js_gt (num (e + dl)) m))"
      by auto
  qed
next
  case (Again a w acts w1 r acts' w2)
  have one: "length (invocations acts) = 1"
    using retry_body_Again_invocations [OF Again(1)]
      length_map [of ctx_attempt "invocations acts"] by simp
  from retry_body_Again_last [OF refl Again(1)] obtain d0 where
    ne: "acts \<noteq> []" and la: "last acts = Sleep d0" by blast
  show ?case
  proof (intro allI impI)
    fix k e m cause
    assume r: "r = Inl (RetryTimeoutError k e m cause)"
    with Again(4) have b: "n_maxElapsedMs opts = Some m"
      and k: "k = Suc a + length (invocations acts')"
      and n: "cause = None \<longrightarrow> js_gt (num e) m \<and> (acts' = [] \<or> (\<exists>dl. last acts' = Sleep dl))"
      and c: "\<forall>err. cause = Some err \<longrightarrow>
              (\<exists>ctx c dl. acts' \<noteq> [] \<and> last acts' = Classify err c True \<and>
                  Invoke ctx (Some err) \<in> set acts' \<and> js_gt (num (e + dl)) m)"
      by blast+
    have k': "k = a + length (invocations (acts @ acts'))"
      using k one by (simp add: invocations_append)
    have n': "cause = None \<longrightarrow> js_gt (num e) m \<and>
                (acts @ acts' = [] \<or> (\<exists>dl. last (acts @ acts') = Sleep dl))"
      using n la ne by (cases "acts' = []") auto
    have c': "\<forall>err. cause = Some err \<longrightarrow>
              (\<exists>ctx c dl. acts @ acts' \<noteq> [] \<and> last (acts @ acts') = Classify err c True \<and>
                  Invoke ctx (Some err) \<in> set (acts @ acts') \<and> js_gt (num (e + dl)) m)"
    proof (intro allI impI)
      fix err assume "cause = Some err"
      with c obtain ctx cc dl where "acts' \<noteq> []" "last acts' = Classify err cc True"
        "Invoke ctx (Some err) \<in> set acts'" "js_gt (num (e + dl)) m" by blast
      then show "\<exists>ctx c dl. acts @ acts' \<noteq> [] \<and> last (acts @ acts') = Classify err c True \<and>
                  Invoke ctx (Some err) \<in> set (acts @ acts') \<and> js_gt (num (e + dl)) m"
        by (intro exI [of _ ctx] exI [of _ cc] exI [of _ dl]) simp
    qed
    show "n_maxElapsedMs opts = Some m \<and> k = a + length (invocations (acts @ acts')) \<and>
           (cause = None \<longrightarrow> js_gt (num e) m \<and>
              (acts @ acts' = [] \<or> (\<exists>dl. last (acts @ acts') = Sleep dl))) \<and>
           (\<forall>err. cause = Some err \<longrightarrow>
              (\<exists>ctx c dl. acts @ acts' \<noteq> [] \<and> last (acts @ acts') = Classify err c True \<and>
                  Invoke ctx (Some err) \<in> set (acts @ acts') \<and> js_gt (num (e + dl)) m))"
      using b k' n' c' by blast
  qed
qed


text \<open>
  C7.  Let the configuration be valid with a budget \<open>m\<close>.
  \<^item> Before the first attempt: if the signal is not aborted and the elapsed time read by the
    first check exceeds \<open>m\<close>, \<open>retry\<close> rejects with a timeout error that reports 0 attempts
    and has no cause; the task is not invoked.
  \<^item> Before every attempt: the same at any pass of the loop, the error reporting the number
    of attempts made so far.
  \<^item> Before every sleep: if an attempt has failed, the loop has decided to retry, and the
    elapsed time plus the planned delay exceeds \<open>m\<close>, the loop rejects with a timeout error
    whose cause is the error of the task; the log ends with the classifier's call and the
    world is the one in which the delay was planned, so the hook is not called and the sleep
    never starts.
  \<^item> Conversely, a timeout error comes from one of these two checks only: it carries the
    budget and the number of invocations made; without a cause the elapsed time it reports
    exceeds the budget; with a cause, the cause is the error of the last invocation and
    nothing but the classifier's call follows that invocation.
\<close>

theorem budget_checked_before_attempt_and_sleep:
  assumes "normalizeOptions P options = Inr opts" and "n_maxElapsedMs opts = Some m"
  shows "(\<forall>s w1 t w2.
            Date_now P w = (s, w1) \<longrightarrow> \<not> signalAborted (n_signal opts) w1 \<longrightarrow>
            Date_now P w1 = (t, w2) \<longrightarrow> js_gt (num (toIntMs (js_sub t s))) m \<longrightarrow>
            retry P task options w
              = (Inl (RetryTimeoutError 0 (toIntMs (js_sub t s)) m None), [], w2)) \<and>
         (\<forall>s a v t v1.
            \<not> signalAborted (n_signal opts) v \<longrightarrow> Date_now P v = (t, v1) \<longrightarrow>
            js_gt (num (toIntMs (js_sub t s))) m \<longrightarrow>
            retry_loop P task opts s a v
              = (Inl (RetryTimeoutError a (toIntMs (js_sub t s)) m None), [], v1)) \<and>
         (\<forall>s a v t0 v1 t1 v2 ctx err v3 t v4 ctx' v5 why dl v6.
            \<not> signalAborted (n_signal opts) v \<longrightarrow> Date_now P v = (t0, v1) \<longrightarrow>
            \<not> js_gt (num (toIntMs (js_sub t0 s))) m \<longrightarrow> Date_now P v1 = (t1, v2) \<longrightarrow>
            ctx = \<lparr> ctx_attempt = Suc a, ctx_maxAttempts = n_maxAttempts opts,
                    ctx_startedAt = s, ctx_elapsedMs = toIntMs (js_sub t1 s),
                    ctx_signal = n_signal opts \<rparr> \<longrightarrow>
            task ctx v2 = (Inl err, v3) \<longrightarrow> \<not> isAbortLikeError err \<longrightarrow>
            Date_now P v3 = (t, v4) \<longrightarrow> Suc a < n_maxAttempts opts \<longrightarrow>
            \<not> signalAborted (n_signal opts) v4 \<longrightarrow>
            ctx' = ctx\<lparr>ctx_elapsedMs := toIntMs (js_sub t s)\<rparr> \<longrightarrow>
            n_shouldRetry opts err ctx' v4 = (True, v5) \<longrightarrow>
            planDelay P opts err (Suc a) v5 = ((why, dl), v6) \<longrightarrow>
            js_gt (num (toIntMs (js_sub t s) + dl)) m \<longrightarrow>
            retry_loop P task opts s a v
              = (Inl (RetryTimeoutError (Suc a) (toIntMs (js_sub t s)) m (Some err)),
                 [Invoke ctx (Some err), Classify err ctx' True], v6)) \<and>
         (\<forall>r acts w' k e m' cause.
            retry P task options w = (r, acts, w') \<longrightarrow>
            r = Inl (RetryTimeoutError k e m' cause) \<longrightarrow>
            m' = m \<and> k = length (invocations acts) \<and>
            (cause = None \<longrightarrow> js_gt (num e) m \<and> (acts = [] \<or> (\<exists>d. last acts = Sleep d))) \<and>
            (\<forall>err. cause = Some err \<longrightarrow>
               (\<exists>ctx c d. acts \<noteq> [] \<and> last acts = Classify err c True \<and>
                   Invoke ctx (Some err) \<in> set acts \<and> js_gt (num (e + d)) m)))"
proof (intro conjI allI impI)
  fix s a v t v1
  assume h: "\<not> signalAborted (n_signal opts) v" "Date_now P v = (t, v1)"
    "js_gt (num (toIntMs (js_sub t s))) m"
  have "retry_body P task opts s a v
          = Done (Inl (RetryTimeoutError a (toIntMs (js_sub t s)) m None)) [] v1"
    using h assms(2) by (simp add: retry_body_def Let_def overBudget_def)
  then show "retry_loop P task opts s a v
              = (Inl (RetryTimeoutError a (toIntMs (js_sub t s)) m None), [], v1)"
    by (rule retry_loop_Done)
next
  fix s w1 t w2
  assume h: "Date_now P w = (s, w1)" "\<not> signalAborted (n_signal opts) w1"
    "Date_now P w1 = (t, w2)" "js_gt (num (toIntMs (js_sub t s))) m"
  have "retry_body P task opts s 0 w1
          = Done (Inl (RetryTimeoutError 0 (toIntMs (js_sub t s)) m None)) [] w2"
    using h assms(2) by (simp add: retry_body_def Let_def overBudget_def)
  then have "retry_loop P task opts s 0 w1
              = (Inl (RetryTimeoutError 0 (toIntMs (js_sub t s)) m None), [], w2)"
    by (rule retry_loop_Done)
  then show "retry P task options w
              = (Inl (RetryTimeoutError 0 (toIntMs (js_sub t s)) m None), [], w2)"
    using assms(1) h(1) by (simp add: retry_def)
next
  fix s a v t0 v1 t1 v2 ctx err v3 t v4 ctx' v5 why dl v6
  assume h: "\<not> signalAborted (n_signal opts) v" "Date_now P v = (t0, v1)"
    "\<not> js_gt (num (toIntMs (js_sub t0 s))) m" "Date_now P v1 = (t1, v2)"
    and c: "ctx = \<lparr> ctx_attempt = Suc a, ctx_maxAttempts = n_maxAttempts opts,
                    ctx_startedAt = s, ctx_elapsedMs = toIntMs (js_sub t1 s),
                    ctx_signal = n_signal opts \<rparr>"
    and t: "task ctx v2 = (Inl err, v3)"
    and k: "\<not> isAbortLikeError err" "Date_now P v3 = (t, v4)" "Suc a < n_maxAttempts opts"
      "\<not> signalAborted (n_signal opts) v4"
    and c': "ctx' = ctx\<lparr>ctx_elapsedMs := toIntMs (js_sub t s)\<rparr>"
    and p: "n_shouldRetry opts err ctx' v4 = (True, v5)"
      "planDelay P opts err (Suc a) v5 = ((why, dl), v6)"
      "js_gt (num (toIntMs (js_sub t s) + dl)) m"
  have ca: "retry_catch P opts s (Suc a) ctx err v3
          = (Done (Inl (RetryTimeoutError (Suc a) (toIntMs (js_sub t s)) m (Some err)))
              [Classify err ctx' True] v6 :: ('a, 'b) step)"
    using k p c' assms(2) by (simp add: retry_catch_def Let_def overBudget_def)
  have "retry_body P task opts s a v
          = Done (Inl (RetryTimeoutError (Suc a) (toIntMs (js_sub t s)) m (Some err)))
              [Invoke ctx (Some err), Classify err ctx' True] v6"
    using h t assms(2) c ca by (simp add: retry_body_def Let_def overBudget_def)
  then show "retry_loop P task opts s a v
              = (Inl (RetryTimeoutError (Suc a) (toIntMs (js_sub t s)) m (Some err)),
                 [Invoke ctx (Some err), Classify err ctx' True], v6)"
    by (rule retry_loop_Done)
next
  fix r acts w' k e m' cause
  assume run: "retry P task options w = (r, acts, w')"
    and r: "r = Inl (RetryTimeoutError k e m' cause)"
  from run have f: "n_maxElapsedMs opts = Some m' \<and> k = length (invocations acts) \<and>
            (cause = None \<longrightarrow> js_gt (num e) m' \<and> (acts = [] \<or> (\<exists>d. last acts = Sleep d))) \<and>
            (\<forall>err. cause = Some err \<longrightarrow>
               (\<exists>ctx c d. acts \<noteq> [] \<and> last acts = Classify err c True \<and>
                   Invoke ctx (Some err) \<in> set acts \<and> js_gt (num (e + d)) m'))"
  proof (cases rule: retry_cases)
    case (invalid x)
    then show ?thesis using assms(1) by simp
  next
    case (run opts' s w1)
    with assms(1) have "opts' = opts" by simp
    with retry_loop_timeout [OF run(3)] r show ?thesis by simp
  qed
  then have mm: "m' = m" using assms(2) by simp
  show "m' = m" by (rule mm)
  show "k = length (invocations acts)" using f by blast
  { assume "cause = None"
    then show "js_gt (num e) m" "acts = [] \<or> (\<exists>d. last acts = Sleep d)"
      using f mm by blast+ }
  { fix err assume "cause = Some err"
    then show "\<exists>ctx c d. acts \<noteq> [] \<and> last acts = Classify err c True \<and>
                   Invoke ctx (Some err) \<in> set acts \<and> js_gt (num (e + d)) m"
      using f mm by blast }
qed


theorem budget_checked_before_attempt_and_sleep_witness:
  "retry tickingPlatform (succeedsAt 1 JNull) (emptyOptions\<lparr>maxElapsedMs := Val (Fin 5)\<rparr>) 0
     = (Inl (RetryTimeoutError 0 10 (Fin 5) None), [], 20) \<and>
   fst (retry simPlatform (failing (JObj False []))
          (emptyOptions\<lparr> maxAttempts := Val (Fin 5), baseMs := Val (Fin 200),
                          capMs := Val (Fin 200), rng := Val (constantDraw (3 / 4)),
                          maxElapsedMs := Val (Fin 100), onRetry := Val quietHook \<rparr>) 0)
     = Inl (RetryTimeoutError 1 0 (Fin 100) (Some (JObj False []))) \<and>
   length (invocations (fst (snd (retry simPlatform (failing (JObj False []))
          (emptyOptions\<lparr> maxAttempts := Val (Fin 5), baseMs := Val (Fin 200),
                          capMs := Val (Fin 200), rng := Val (constantDraw (3 / 4)),
                          maxElapsedMs := Val (Fin 100), onRetry := Val quietHook \<rparr>) 0)))) = 1"
proof -
  let ?o1 = "emptyOptions\<lparr>maxElapsedMs := Val (Fin 5)\<rparr> :: int RetryOptions"
  let ?o2 = "emptyOptions\<lparr> maxAttempts := Val (Fin 5), baseMs := Val (Fin 200),
                          capMs := Val (Fin 200), rng := Val (constantDraw (3 / 4)),
                          maxElapsedMs := Val (Fin 100), onRetry := Val quietHook \<rparr>
             :: int RetryOptions"
  let ?e = "JObj False []"
  obtain opts1 where n1: "normalizeOptions tickingPlatform ?o1 = Inr opts1"
    and b1: "n_maxElapsedMs opts1 = Some (Fin 5)" and s1: "n_signal opts1 = None"
    by (simp add: engine_defs)
  have c0: "Date_now tickingPlatform 0 = (Fin 0, 10)"
    and c1: "Date_now tickingPlatform 10 = (Fin 10, 20)"
    by (simp_all add: tickingPlatform_def num_def)
  have na: "\<not> signalAborted (n_signal opts1) (10 :: int)"
    by (simp add: s1 signalAborted_def)
  have el: "toIntMs (js_sub (Fin 10) (Fin 0)) = 10"
    by (simp add: toIntMs_def js_sub_def trunc_def)
  have gt: "js_gt (num (toIntMs (js_sub (Fin 10) (Fin 0)))) (Fin 5)"
    by (simp add: el js_gt_def num_def)
  have first: "retry tickingPlatform (succeedsAt 1 JNull) ?o1 0
     = (Inl (RetryTimeoutError 0 10 (Fin 5) None), [], 20)"
    using budget_checked_before_attempt_and_sleep
      [OF n1 b1, of 0 "succeedsAt 1 JNull", THEN conjunct1, rule_format, OF c0 na c1 gt]
    by (simp only: el)
  obtain opts2 where n2: "normalizeOptions simPlatform ?o2 = Inr opts2"
    and b2: "n_maxElapsedMs opts2 = Some (Fin 100)"
    by (simp add: engine_defs)
  obtain acts w' where run:
    "retry simPlatform (failing ?e) ?o2 0
       = (Inl (RetryTimeoutError 1 0 (Fin 100) (Some ?e)), acts, w')"
    by (simp add: engine_defs retry_loop.simps value_defs floor_rat_numeral)
  from budget_checked_before_attempt_and_sleep
    [OF n2 b2, of 0 "failing ?e", THEN conjunct2, THEN conjunct2, THEN conjunct2,
     rule_format, OF run refl]
  have "1 = length (invocations acts)" by (elim conjE)
  then show ?thesis using first run by simp
qed

end
